theory Spec2Isabelle
  imports Complex_Main "HOL-Library.Sublist" "HOL-Library.AList"
begin

section \<open>Text of the external process and the patterns scanned in it\<close>

text \<open>
  The server reads the output of the download tool chunk by chunk
  (\<^verbatim>\<open>data.toString()\<close>) and scans every chunk with five regular expressions.
  A chunk is a \<^typ>\<open>string\<close>; each \<^typ>\<open>char\<close> stands for the UTF-16 code unit
  of the same number, so the model covers text whose code units are below 256.

  The five expressions only quantify single character classes, so an expression is a
  list of items: a character class under a quantifier, or the opening or closing
  parenthesis of the one capture group.
\<close>

datatype cclass =
    Chr char              \<comment> \<open>a literal character\<close>
  | Digit                 \<comment> \<open>\<^verbatim>\<open>\d\<close>\<close>
  | Space                 \<comment> \<open>\<^verbatim>\<open>\s\<close>\<close>
  | Word                  \<comment> \<open>\<^verbatim>\<open>\w\<close>\<close>
  | Dot                   \<comment> \<open>\<^verbatim>\<open>.\<close>\<close>
  | OneOf "cclass list"   \<comment> \<open>\<^verbatim>\<open>[...]\<close>\<close>

datatype quant = Once | Opt | Star | Plus

datatype item = Atom cclass quant | GroupOpen | GroupClose

definition is_digit :: "char \<Rightarrow> bool" where
  "is_digit c = (c \<in> set ''0123456789'')"

definition is_space :: "char \<Rightarrow> bool" where
  "is_space c = (c \<in> {CHR 0x09, CHR 0x0A, CHR 0x0B, CHR 0x0C, CHR 0x0D, CHR 0x20, CHR 0xA0})"

definition is_word :: "char \<Rightarrow> bool" where
  "is_word c = (c \<in> set ''abcdefghijklmnopqrstuvwxyzABCDEFGHIJKLMNOPQRSTUVWXYZ0123456789_'')"

definition is_line_terminator :: "char \<Rightarrow> bool" where
  "is_line_terminator c = (c \<in> {CHR 0x0A, CHR 0x0D})"

fun in_class :: "cclass \<Rightarrow> char \<Rightarrow> bool" where
  "in_class (Chr a) c = (c = a)"
| "in_class Digit c = is_digit c"
| "in_class Space c = is_space c"
| "in_class Word c = is_word c"
| "in_class Dot c = (\<not> is_line_terminator c)"
| "in_class (OneOf cs) c = (\<exists>k \<in> set cs. in_class k c)"

text \<open>
  \<open>rmatch r s\<close> matches \<open>r\<close> at the start of \<open>s\<close> the way a backtracking engine
  does: a greedy quantifier first takes one more character and gives it back when the
  rest of the expression fails. The result is the pair of the text left at the opening
  and at the closing parenthesis of the group.
\<close>

fun rmatch :: "item list \<Rightarrow> string \<Rightarrow> (string \<times> string) option" where
  "rmatch [] s = Some ([], [])"
| "rmatch (GroupOpen # r) s = map_option (\<lambda>(b, e). (s, e)) (rmatch r s)"
| "rmatch (GroupClose # r) s = map_option (\<lambda>(b, e). (b, s)) (rmatch r s)"
| "rmatch (Atom c Once # r) [] = None"
| "rmatch (Atom c Once # r) (x # xs) = (if in_class c x then rmatch r xs else None)"
| "rmatch (Atom c Opt # r) [] = rmatch r []"
| "rmatch (Atom c Opt # r) (x # xs) =
     (if in_class c x
      then (case rmatch r xs of Some m \<Rightarrow> Some m | None \<Rightarrow> rmatch r (x # xs))
      else rmatch r (x # xs))"
| "rmatch (Atom c Star # r) [] = rmatch r []"
| "rmatch (Atom c Star # r) (x # xs) =
     (if in_class c x
      then (case rmatch (Atom c Star # r) xs of Some m \<Rightarrow> Some m | None \<Rightarrow> rmatch r (x # xs))
      else rmatch r (x # xs))"
| "rmatch (Atom c Plus # r) [] = None"
| "rmatch (Atom c Plus # r) (x # xs) =
     (if in_class c x then rmatch (Atom c Star # r) xs else None)"

text \<open>The leftmost match: every start position is tried in turn.\<close>

fun rsearch :: "item list \<Rightarrow> string \<Rightarrow> (string \<times> string) option" where
  "rsearch r [] = rmatch r []"
| "rsearch r (x # xs) = (case rmatch r (x # xs) of Some m \<Rightarrow> Some m | None \<Rightarrow> rsearch r xs)"

text \<open>
  \<^verbatim>\<open>output.match(re)\<close> for an expression without the global flag: \<open>None\<close> is
  \<^verbatim>\<open>null\<close>, \<open>Some g\<close> is a match whose group 1 is \<open>g\<close>.
\<close>

definition js_match :: "item list \<Rightarrow> string \<Rightarrow> string option" where
  "js_match r s = map_option (\<lambda>(b, e). take (length b - length e) b) (rsearch r s)"

definition lit :: "string \<Rightarrow> item list" where
  "lit s = map (\<lambda>c. Atom (Chr c) Once) s"

text \<open>\<^verbatim>\<open>/\[download\]\s+(\d+\.?\d*)%/\<close>\<close>

definition downloadRe :: "item list" where
  "downloadRe = lit ''[download]'' @
     [Atom Space Plus, GroupOpen, Atom Digit Plus, Atom (Chr CHR ''.'') Opt, Atom Digit Star,
      GroupClose, Atom (Chr CHR ''%'') Once]"

text \<open>\<^verbatim>\<open>/\[download\]\s+[\d.]+%\s+of\s+~?\s*([\d.]+\w+)/\<close>\<close>

definition sizeRe :: "item list" where
  "sizeRe = lit ''[download]'' @
     [Atom Space Plus, Atom (OneOf [Digit, Chr CHR ''.'']) Plus, Atom (Chr CHR ''%'') Once,
      Atom Space Plus] @ lit ''of'' @
     [Atom Space Plus, Atom (Chr CHR ''~'') Opt, Atom Space Star,
      GroupOpen, Atom (OneOf [Digit, Chr CHR ''.'']) Plus, Atom Word Plus, GroupClose]"

text \<open>\<^verbatim>\<open>/ETA\s+([\d:]+)/\<close>\<close>

definition etaRe :: "item list" where
  "etaRe = lit ''ETA'' @
     [Atom Space Plus, GroupOpen, Atom (OneOf [Digit, Chr CHR '':'']) Plus, GroupClose]"

text \<open>\<^verbatim>\<open>/\[download\] Destination: (.+)/\<close>\<close>

definition destRe :: "item list" where
  "destRe = lit ''[download] Destination: '' @ [GroupOpen, Atom Dot Plus, GroupClose]"

text \<open>\<^verbatim>\<open>/\[Merger\] Merging formats into "(.+)"/\<close>\<close>

definition mergerRe :: "item list" where
  "mergerRe = lit ''[Merger] Merging formats into '' @
     [Atom (Chr (CHR 0x22)) Once, GroupOpen, Atom Dot Plus, GroupClose, Atom (Chr (CHR 0x22)) Once]"

text \<open>\<^verbatim>\<open>String.prototype.trim\<close>: white space and line terminators go from both ends.\<close>

definition trim :: "string \<Rightarrow> string" where
  "trim s = rev (dropWhile is_space (rev (dropWhile is_space s)))"


section \<open>Numbers read from the output\<close>

text \<open>
  A number of the program is \<open>NaN\<close> or a rational: \<^verbatim>\<open>parseFloat\<close> is modelled by the
  exact value of the decimal numeral it reads (the program holds the nearest double,
  and rounding to the nearest double keeps the order and keeps 99 and 100 fixed).
  \<open>parseFloat\<close> covers text without sign, exponent or leading white space, which is
  all that group 1 of \<open>downloadRe\<close> can hold.
\<close>

datatype jsnum = NaN | Num rat

definition digit_val :: "char \<Rightarrow> nat" where
  "digit_val c = of_char c - 48"

definition digits_val :: "string \<Rightarrow> nat" where
  "digits_val ds = foldl (\<lambda>a c. 10 * a + digit_val c) 0 ds"

definition parseFloat :: "string \<Rightarrow> jsnum" where
  "parseFloat s =
     (let ip = takeWhile is_digit s;
          rest = dropWhile is_digit s;
          fp = (case rest of [] \<Rightarrow> [] | c # t \<Rightarrow> if c = CHR ''.'' then takeWhile is_digit t else [])
      in if ip = [] \<and> fp = [] then NaN
         else Num (of_nat (digits_val ip) + of_nat (digits_val fp) / 10 ^ length fp))"

fun Math_min :: "jsnum \<Rightarrow> jsnum \<Rightarrow> jsnum" where
  "Math_min (Num a) (Num b) = Num (min a b)"
| "Math_min _ _ = NaN"

section \<open>Jobs, connections and the state of the server\<close>

datatype status = Initializing | Downloading | Streaming | Completed | Failed

text \<open>
  Two texts of the program are built from a template; they are kept symbolic:
  \<open>Downloading_percent p\<close> is \<^verbatim>\<open>`Downloading: ${progress.toFixed(1)}%`\<close> and
  \<open>Exited_with_code c\<close> is \<^verbatim>\<open>`yt-dlp exited with code ${code}`\<close>.
\<close>

datatype stage_text = Text string | Downloading_percent jsnum

datatype error_text = Message string | Exited_with_code "int option"

text \<open>
  A job is an object whose properties may be absent: \<open>None\<close> is a property that the
  object does not have (or has as \<^verbatim>\<open>undefined\<close>).
\<close>

record job =
  jobId :: "string option"
  status :: "status option"
  progress :: "jsnum option"
  stage :: "stage_text option"
  url :: "string option"
  format_id :: "string option"
  totalSize :: "string option"
  eta :: "string option"
  error :: "error_text option"

definition empty_job :: job where
  "empty_job = \<lparr>jobId = None, status = None, progress = None, stage = None, url = None,
     format_id = None, totalSize = None, eta = None, error = None\<rparr>"

text \<open>
  \<^verbatim>\<open>{...activeJobs.get(jobId), ...}\<close>: spreading \<^verbatim>\<open>undefined\<close> adds no property.
\<close>

definition spread :: "job option \<Rightarrow> job" where
  "spread g = (case g of None \<Rightarrow> empty_job | Some j \<Rightarrow> j)"

text \<open>
  The idiom \<^verbatim>\<open>activeJobs.set(jobId, {...activeJobs.get(jobId), ...})\<close> by which every
  handler updates the registry: \<open>upd\<close> sets the properties written after the spread.
\<close>

definition merge_update :: "string \<Rightarrow> (job \<Rightarrow> job) \<Rightarrow> (string \<rightharpoonup> job) \<Rightarrow> (string \<rightharpoonup> job)" where
  "merge_update jid upd reg = reg(jid \<mapsto> upd (spread (reg jid)))"

datatype ready_state = CONNECTING | OPEN | CLOSING | CLOSED

record ws_client =
  readyState :: ready_state
  ws_jobId :: "string option"   \<comment> \<open>\<^verbatim>\<open>ws.jobId\<close>\<close>
  sent :: "job list"            \<comment> \<open>what \<^verbatim>\<open>client.send\<close> has been given, oldest first\<close>

datatype response = Pending | Json_error nat string | Json_job job | File_stream string

type_synonym path = "string list"

text \<open>
  The closure of one run of the download handler: its job id, its response, the
  variable \<^verbatim>\<open>downloadedFile\<close>, and which of its listeners can still be called:
  those of the child process while it is \<open>Running\<close>, those of the file stream while it is
  \<open>Piping\<close>, none when the pipe has been undone (\<open>Stalled\<close>) or the request is \<open>Done\<close>.
\<close>

datatype phase = Running | Piping | Stalled | Done

record request =
  req_jobId :: string
  res :: response
  downloadedFile :: "string option"
  phase :: phase

record server =
  activeJobs :: "string \<rightharpoonup> job"
  clients :: "ws_client list"              \<comment> \<open>\<^verbatim>\<open>wss.clients\<close>\<close>
  files :: "path set"                      \<comment> \<open>the paths that exist on disk\<close>
  timers :: "(nat \<times> string) list"          \<comment> \<open>pending \<^verbatim>\<open>setTimeout\<close>s: due time in ms, job to delete\<close>
  now :: nat                               \<comment> \<open>the clock, in ms\<close>
  spawned :: "(string \<times> string list) list" \<comment> \<open>the calls of \<^verbatim>\<open>spawn\<close>, oldest first\<close>
  requests :: "string \<rightharpoonup> request"
  cookiesExist :: bool
  YT_DLP_PATH :: string
  dirname :: path                          \<comment> \<open>\<^verbatim>\<open>__dirname\<close>\<close>

definition truthy :: "string option \<Rightarrow> bool" where
  "truthy v = (case v of None \<Rightarrow> False | Some t \<Rightarrow> t \<noteq> [])"


section \<open>The file system\<close>

text \<open>
  \<^verbatim>\<open>fs.rm(path, { recursive: true, force }, callback)\<close>, the only way the server
  removes anything, on the set of existing paths: the error handed to the callback, and
  the paths left. The path goes with everything under it; with \<open>force\<close> a path that
  does not exist is no error.
\<close>

datatype fs_error = ENOENT

definition fs_rm_recursive :: "path \<Rightarrow> bool \<Rightarrow> path set \<Rightarrow> fs_error option \<times> path set" where
  "fs_rm_recursive d force fs =
     (if \<not> (\<exists>p \<in> fs. prefix d p) then (if force then None else Some ENOENT, fs)
      else (None, {p \<in> fs. \<not> prefix d p}))"

text \<open>\<^verbatim>\<open>path.join(__dirname, 'temp', jobId)\<close>\<close>

definition tempDir :: "server \<Rightarrow> string \<Rightarrow> path" where
  "tempDir s jid = dirname s @ [''temp'', jid]"

definition path_str :: "path \<Rightarrow> string" where
  "path_str p = concat (map (\<lambda>c. CHR ''/'' # c) p)"

text \<open>\<^verbatim>\<open>path.join(__dirname, 'youtube-cookies.txt')\<close>\<close>

definition COOKIES_PATH :: "server \<Rightarrow> string" where
  "COOKIES_PATH s = path_str (dirname s @ [''youtube-cookies.txt''])"

text \<open>
  \<^verbatim>\<open>fs.rm(tempDir, { recursive: true, force: true }, () => {})\<close>: the callback drops
  the error.
\<close>

definition rm_tempDir :: "string \<Rightarrow> server \<Rightarrow> server" where
  "rm_tempDir jid s = s\<lparr>files := snd (fs_rm_recursive (tempDir s jid) True (files s))\<rparr>"

text \<open>\<^verbatim>\<open>fs.promises.mkdir(tempDir, { recursive: true })\<close>, when it succeeds.\<close>

definition mkdir_tempDir :: "string \<Rightarrow> server \<Rightarrow> server" where
  "mkdir_tempDir jid s = s\<lparr>files := files s \<union> set (prefixes (tempDir s jid))\<rparr>"

section \<open>The broadcaster and the connections\<close>

definition broadcastProgress :: "string \<Rightarrow> job \<Rightarrow> ws_client list \<Rightarrow> ws_client list" where
  "broadcastProgress jid prog cs =
     map (\<lambda>client. if readyState client = OPEN \<and> ws_jobId client = Some jid
                    then client\<lparr>sent := sent client @ [prog]\<rparr> else client) cs"

text \<open>
  A message of a connection, after \<^verbatim>\<open>JSON.parse\<close>: \<open>Unparsable\<close> is a text on which
  the \<^verbatim>\<open>try\<close> block throws; \<open>Parsed t j\<close> is an object with \<^verbatim>\<open>type\<close> \<open>t\<close> and
  \<^verbatim>\<open>jobId\<close> \<open>j\<close>, each a string or absent.
\<close>

datatype ws_message = Unparsable | Parsed "string option" "string option"

definition on_message :: "ws_message \<Rightarrow> ws_client \<Rightarrow> ws_client" where
  "on_message message ws =
     (case message of
        Unparsable \<Rightarrow> ws
      | Parsed type jid \<Rightarrow>
          if type = Some ''subscribe'' \<and> truthy jid then ws\<lparr>ws_jobId := jid\<rparr> else ws)"

definition on_connection :: "server \<Rightarrow> server" where
  "on_connection s = s\<lparr>clients := clients s @ [\<lparr>readyState = OPEN, ws_jobId = None, sent = []\<rparr>]\<rparr>"

section \<open>The download handler\<close>

text \<open>
  A registry write followed by the broadcast of the object written
  (\<^verbatim>\<open>broadcastProgress(jobId, activeJobs.get(jobId))\<close>).
\<close>

definition set_and_broadcast :: "string \<Rightarrow> (job \<Rightarrow> job) \<Rightarrow> server \<Rightarrow> server" where
  "set_and_broadcast jid upd s =
     s\<lparr>activeJobs := merge_update jid upd (activeJobs s),
       clients := broadcastProgress jid (upd (spread (activeJobs s jid))) (clients s)\<rparr>"

definition formatSelector :: "string option \<Rightarrow> string" where
  "formatSelector fid =
     (case fid of
        Some f \<Rightarrow>
          if f \<noteq> []
          then f @ ''+bestaudio/bestvideo[protocol!*=m3u8][protocol!=http_dash_segments]+bestaudio/best[protocol!*=m3u8][protocol!=http_dash_segments]''
          else ''bestvideo[protocol!*=m3u8][protocol!=http_dash_segments][ext=mp4]+bestaudio[ext=m4a]/best[protocol!*=m3u8][protocol!=http_dash_segments]''
      | None \<Rightarrow> ''bestvideo[protocol!*=m3u8][protocol!=http_dash_segments][ext=mp4]+bestaudio[ext=m4a]/best[protocol!*=m3u8][protocol!=http_dash_segments]'')"

definition ytdlpArgs :: "server \<Rightarrow> string \<Rightarrow> string \<Rightarrow> string \<Rightarrow> string list" where
  "ytdlpArgs s sel outputTemplate u =
     (if cookiesExist s then [''--cookies'', COOKIES_PATH s] else []) @
     [''-f'', sel, ''--merge-output-format'', ''mp4'', ''--postprocessor-args'',
      ''Merger+ffmpeg:-c:v copy -c:a aac -b:a 40k'', ''--extractor-args'',
      ''youtube:player_client=ios,web'', ''--user-agent'',
      ''Mozilla/5.0 (iPhone; CPU iPhone OS 17_0 like Mac OS X) AppleWebKit/605.1.15'',
      ''--newline'', ''--progress'', ''-o'', outputTemplate, u]"

text \<open>
  \<^verbatim>\<open>app.post('/v1/download', ...)\<close> after authentication, up to the point where its
  listeners are installed. \<open>u\<close> and \<open>fid\<close> are \<^verbatim>\<open>url\<close> and \<^verbatim>\<open>format_id\<close> of the body
  (a string or absent), \<open>uuid\<close> is what \<^verbatim>\<open>uuidv4()\<close> returns, \<open>mkdir_err\<close> is the message
  of the error with which \<^verbatim>\<open>mkdir\<close> rejects, if it does. The result is the response
  so far and the new state. With string arguments \<^verbatim>\<open>spawn\<close> does not throw; a tool
  that cannot be started is reported by an event the handler does not listen to, which
  is outside the model.
\<close>

definition post_download ::
  "string option \<Rightarrow> string option \<Rightarrow> string \<Rightarrow> string option \<Rightarrow> server \<Rightarrow> response \<times> server" where
  "post_download u fid uuid mkdir_err s =
     (if \<not> truthy u then (Json_error 400 (''Missing '' @ [CHR 0x22] @ ''url'' @ [CHR 0x22] @ '' in request body''), s)
      else
        let j0 = \<lparr>jobId = Some uuid, status = Some Initializing, progress = Some (Num 0),
                  stage = Some (Text ''Starting download...''), url = u, format_id = fid,
                  totalSize = None, eta = None, error = None\<rparr>;
            s1 = s\<lparr>activeJobs := (activeJobs s)(uuid \<mapsto> j0)\<rparr>
        in case mkdir_err of
             None \<Rightarrow>
               let s2 = mkdir_tempDir uuid s1;
                   s3 = s2\<lparr>clients := broadcastProgress uuid j0 (clients s2)\<rparr>;
                   outputTemplate = path_str (tempDir s3 uuid @ [''%(title)s.%(ext)s'']);
                   s4 = s3\<lparr>spawned := spawned s3 @
                          [(YT_DLP_PATH s3, ytdlpArgs s3 (formatSelector fid) outputTemplate (case u of Some v \<Rightarrow> v | None \<Rightarrow> []))],
                        requests := (requests s3)(uuid \<mapsto>
                          \<lparr>req_jobId = uuid, res = Pending, downloadedFile = None, phase = Running\<rparr>)\<rparr>
               in (Pending, s4)
           | Some msg \<Rightarrow>
               let s2 = set_and_broadcast uuid
                          (\<lambda>j. j\<lparr>status := Some Failed, stage := Some (Text ''Failed''),
                                 error := Some (Message msg)\<rparr>) s1
               in (Json_error 500 ''An internal server error occurred during video processing.'',
                   rm_tempDir uuid s2))"

text \<open>\<^verbatim>\<open>ytdlp.stdout.on('data', ...)\<close> on one chunk of output.\<close>

definition on_stdout :: "string \<Rightarrow> request \<times> server \<Rightarrow> request \<times> server" where
  "on_stdout output = (\<lambda>(r, s).
     let downloadMatch = js_match downloadRe output;
         sizeMatch = js_match sizeRe output;
         etaMatch = js_match etaRe output;
         destMatch = js_match destRe output;
         mergerMatch = js_match mergerRe output;
         r1 = (case destMatch of Some d \<Rightarrow> r\<lparr>downloadedFile := Some (trim d)\<rparr> | None \<Rightarrow> r);
         r2 = (case mergerMatch of Some m \<Rightarrow> r1\<lparr>downloadedFile := Some (trim m)\<rparr> | None \<Rightarrow> r1)
     in case downloadMatch of
          None \<Rightarrow> (r2, s)
        | Some g \<Rightarrow>
            (r2, set_and_broadcast (req_jobId r)
                   (\<lambda>j. let jobUpdate = j\<lparr>status := Some Downloading,
                                           progress := Some (Math_min (parseFloat g) (Num 99)),
                                           stage := Some (Downloading_percent (parseFloat g))\<rparr>;
                             jobUpdate1 = (case sizeMatch of Some z \<Rightarrow> jobUpdate\<lparr>totalSize := Some z\<rparr>
                                           | None \<Rightarrow> jobUpdate)
                         in (case etaMatch of Some e \<Rightarrow> jobUpdate1\<lparr>eta := Some e\<rparr>
                             | None \<Rightarrow> jobUpdate1)) s))"

text \<open>
  \<^verbatim>\<open>ytdlp.on('close', ...)\<close>: \<open>code\<close> is the exit code (\<open>None\<close> is \<^verbatim>\<open>null\<close>, a
  process ended by a signal), \<open>stat_ok\<close> tells whether \<^verbatim>\<open>fs.promises.stat\<close> finds
  the file.
\<close>

definition on_close :: "int option \<Rightarrow> bool \<Rightarrow> request \<times> server \<Rightarrow> request \<times> server" where
  "on_close code stat_ok = (\<lambda>(r, s).
     if code = Some 0 \<and> truthy (downloadedFile r) then
       let s1 = set_and_broadcast (req_jobId r)
                  (\<lambda>j. j\<lparr>status := Some Streaming, progress := Some (Num 100),
                         stage := Some (Text ''Sending to browser...'')\<rparr>) s
       in if stat_ok
          then (r\<lparr>res := File_stream (case downloadedFile r of Some f \<Rightarrow> f | None \<Rightarrow> []),
                  phase := Piping\<rparr>, s1)
          else (r\<lparr>res := (if res r = Pending then Json_error 500 ''Failed to send downloaded file''
                          else res r),
                  phase := Done\<rparr>, rm_tempDir (req_jobId r) s1)
     else
       let s1 = set_and_broadcast (req_jobId r)
                  (\<lambda>j. j\<lparr>status := Some Failed, stage := Some (Text ''Download failed''),
                         error := Some (Exited_with_code code)\<rparr>) s
       in (r\<lparr>res := (if res r = Pending then Json_error 500 ''Download failed'' else res r),
             phase := Done\<rparr>, rm_tempDir (req_jobId r) s1))"

text \<open>\<^verbatim>\<open>fileStream.on('end', ...)\<close>\<close>

definition on_stream_end :: "request \<times> server \<Rightarrow> request \<times> server" where
  "on_stream_end = (\<lambda>(r, s).
     let s1 = set_and_broadcast (req_jobId r)
                (\<lambda>j. j\<lparr>status := Some Completed, progress := Some (Num 100),
                       stage := Some (Text ''Download complete!'')\<rparr>) s;
         s2 = rm_tempDir (req_jobId r) s1
     in (r\<lparr>phase := Done\<rparr>, s2\<lparr>timers := timers s2 @ [(now s2 + 5 * 60 * 1000, req_jobId r)]\<rparr>))"

text \<open>\<^verbatim>\<open>fileStream.on('error', ...)\<close>\<close>

definition on_stream_error :: "request \<times> server \<Rightarrow> request \<times> server" where
  "on_stream_error = (\<lambda>(r, s). (r\<lparr>phase := Done\<rparr>, rm_tempDir (req_jobId r) s))"

text \<open>
  The client goes away while the file is piped to it. The handler has installed no
  listener for that (none on \<^verbatim>\<open>res\<close>, none on \<^verbatim>\<open>req\<close>); \<^verbatim>\<open>pipe\<close> detaches the
  file stream from the closed response, and the stream, which nothing reads any more,
  neither ends nor fails. So no code of the handler runs, then or later.
\<close>

definition on_client_lost :: "request \<times> server \<Rightarrow> request \<times> server" where
  "on_client_lost = (\<lambda>(r, s). (r\<lparr>phase := Stalled\<rparr>, s))"

text \<open>\<^verbatim>\<open>app.get('/v1/download/progress/:jobId', ...)\<close> after authentication.\<close>

definition get_progress :: "string \<Rightarrow> server \<Rightarrow> response" where
  "get_progress jid s =
     (case activeJobs s jid of None \<Rightarrow> Json_error 404 ''Job not found'' | Some j \<Rightarrow> Json_job j)"


section \<open>Timers and the event loop\<close>

text \<open>
  \<^verbatim>\<open>setTimeout(() => activeJobs.delete(jobId), 5 * 60 * 1000)\<close> puts a timer in
  \<open>timers\<close>; when the clock is moved, every timer that is due runs and is dropped.
\<close>

definition fire_timers :: "server \<Rightarrow> server" where
  "fire_timers s =
     s\<lparr>activeJobs := fold (\<lambda>(t, jid) m. if t \<le> now s then m(jid := None) else m)
                         (timers s) (activeJobs s),
       timers := filter (\<lambda>(t, jid). now s < t) (timers s)\<rparr>"

definition advance_clock :: "nat \<Rightarrow> server \<Rightarrow> server" where
  "advance_clock t s = fire_timers (s\<lparr>now := max (now s) t\<rparr>)"

text \<open>
  What the event loop can deliver. A listener of a download runs only while it is
  installed and its emitter is alive: output and exit of the child while the request
  is \<open>Running\<close>, end and error of the file stream while it is \<open>Piping\<close>. A job id
  drawn by \<^verbatim>\<open>uuidv4()\<close> is one that has not been used. \<open>requests\<close> keeps the
  closure of every download under its job id; \<open>deliver\<close> runs a listener on the
  closure and puts the closure back. A handler that waits (\<^verbatim>\<open>await\<close>) is run to its
  end in one step.
\<close>

datatype event =
    Post "string option" "string option" string "string option"
  | Stdout string string
  | Close string "int option" bool
  | Stream_end string
  | Stream_error string
  | Client_lost string
  | Clock nat
  | Ws_connect
  | Ws_message nat ws_message
  | Ws_close nat

definition store :: "request \<times> server \<Rightarrow> server" where
  "store = (\<lambda>(r, s). s\<lparr>requests := (requests s)(req_jobId r \<mapsto> r)\<rparr>)"

definition deliver :: "string \<Rightarrow> phase \<Rightarrow> (request \<times> server \<Rightarrow> request \<times> server) \<Rightarrow> server \<Rightarrow> server" where
  "deliver jid ph handler s =
     (case requests s jid of
        None \<Rightarrow> s
      | Some r \<Rightarrow> if phase r = ph \<and> req_jobId r = jid then store (handler (r, s)) else s)"

fun step :: "server \<Rightarrow> event \<Rightarrow> server" where
  "step s (Post u fid uuid mkdir_err) =
     (if activeJobs s uuid = None \<and> requests s uuid = None
      then snd (post_download u fid uuid mkdir_err s) else s)"
| "step s (Stdout jid output) = deliver jid Running (on_stdout output) s"
| "step s (Close jid code stat_ok) = deliver jid Running (on_close code stat_ok) s"
| "step s (Stream_end jid) = deliver jid Piping on_stream_end s"
| "step s (Stream_error jid) = deliver jid Piping on_stream_error s"
| "step s (Client_lost jid) = deliver jid Piping on_client_lost s"
| "step s (Clock t) = advance_clock t s"
| "step s Ws_connect = on_connection s"
| "step s (Ws_message i message) =
     (if i < length (clients s) \<and> readyState (clients s ! i) = OPEN
      then s\<lparr>clients := (clients s)[i := on_message message (clients s ! i)]\<rparr> else s)"
| "step s (Ws_close i) =
     (if i < length (clients s)
      then s\<lparr>clients := (clients s)[i := (clients s ! i)\<lparr>readyState := CLOSED\<rparr>]\<rparr> else s)"

fun run :: "server \<Rightarrow> event list \<Rightarrow> server" where
  "run s [] = s"
| "run s (e # es) = run (step s e) es"

text \<open>The server when it starts to listen: no job, no request, no timer.\<close>

definition startup :: "server \<Rightarrow> bool" where
  "startup s = (activeJobs s = Map.empty \<and> requests s = Map.empty \<and> timers s = [])"

definition server0 :: server where
  "server0 = \<lparr>activeJobs = Map.empty, clients = [], files = {}, timers = [], now = 0,
     spawned = [], requests = Map.empty, cookiesExist = False,
     YT_DLP_PATH = ''yt-dlp'', dirname = [''app'']\<rparr>"

section \<open>The concurrency gate\<close>

text \<open>
  A job of the gate: its \<^verbatim>\<open>jobId\<close>, and what its \<^verbatim>\<open>execute()\<close> does when called:
  throw at once, or return a promise that is settled later.
\<close>

datatype execute = Throws string | Returns_promise

datatype downloadJob = DownloadJob (job_jobId: string) (job_execute: execute)

datatype emitted_event =
    Queued string nat
  | Started string nat nat
  | Completed_event string
  | Failed_event string string

text \<open>
  \<open>activeDownloads\<close> is a \<^verbatim>\<open>Map\<close>: a list of keys and values in insertion order;
  \<open>Map_size\<close> is its \<^verbatim>\<open>size\<close>. \<open>maxConcurrentDownloads\<close> is a count.
\<close>

record manager =
  maxConcurrentDownloads :: nat
  queue :: "downloadJob list"
  activeDownloads :: "(string \<times> downloadJob) list"
  emitted :: "emitted_event list"

definition Map_size :: "('k \<times> 'v) list \<Rightarrow> nat" where
  "Map_size m = length (remdups (map fst m))"


text \<open>
  \<open>processQueue\<close> up to its first suspension. When \<^verbatim>\<open>job.execute()\<close> throws at
  once, the \<^verbatim>\<open>catch\<close> block and the next call of \<open>processQueue\<close> run in the same turn.
\<close>

function processQueue :: "manager \<Rightarrow> manager" where
  "processQueue m =
     (if maxConcurrentDownloads m \<le> Map_size (activeDownloads m) then m
      else case queue m of
        [] \<Rightarrow> m
      | job # rest \<Rightarrow>
          (let active = AList.update (job_jobId job) job (activeDownloads m);
               m1 = m\<lparr>queue := rest, activeDownloads := active,
                      emitted := emitted m @ [Started (job_jobId job) (Map_size active) (length rest)]\<rparr>
           in (case job_execute job of
                 Returns_promise \<Rightarrow> m1
               | Throws msg \<Rightarrow>
                   processQueue (m1\<lparr>activeDownloads := AList.delete (job_jobId job) active,
                                    emitted := emitted m1 @ [Failed_event (job_jobId job) msg]\<rparr>))))"
  by pat_completeness auto
termination
  by (relation "measure (\<lambda>m. length (queue m))") auto

declare processQueue.simps [simp del]








section \<open>Notions used in the statements\<close>

text \<open>The status of a job in the registry, if it is registered and has one.\<close>

definition job_status :: "server \<Rightarrow> string \<Rightarrow> status option" where
  "job_status s jid = (case activeJobs s jid of None \<Rightarrow> None | Some j \<Rightarrow> status j)"

definition job_progress :: "server \<Rightarrow> string \<Rightarrow> jsnum option" where
  "job_progress s jid = (case activeJobs s jid of None \<Rightarrow> None | Some j \<Rightarrow> progress j)"

definition terminal :: "status option \<Rightarrow> bool" where
  "terminal st = (st = Some Completed \<or> st = Some Failed)"

text \<open>
  The run of the download handler for a job is over: the last of its listeners that
  will ever be called has been called.
\<close>

definition ended :: "server \<Rightarrow> string \<Rightarrow> bool" where
  "ended s jid = (case requests s jid of None \<Rightarrow> False | Some r \<Rightarrow> phase r = Done)"


text \<open>
  What holds of the progress of a registered job: while it is downloading the progress
  is a number from 0 to 99, and a progress of 100 goes with the status streaming or
  completed.
\<close>

definition job_ok :: "job \<Rightarrow> bool" where
  "job_ok j =
     ((status j = Some Downloading \<longrightarrow> (\<exists>p. progress j = Some (Num p) \<and> 0 \<le> p \<and> p \<le> 99)) \<and>
      (progress j = Some (Num 100) \<longrightarrow> status j = Some Streaming \<or> status j = Some Completed))"

text \<open>
  The invariant of the event loop behind it: every registered job is \<open>job_ok\<close>, and
  while the child process of a job runs its progress is not 100.
\<close>

definition progress_inv :: "server \<Rightarrow> bool" where
  "progress_inv s =
     (\<forall>jid j. activeJobs s jid = Some j \<longrightarrow>
        job_ok j \<and>
        (\<forall>r. requests s jid = Some r \<longrightarrow> phase r = Running \<longrightarrow> progress j \<noteq> Some (Num 100)))"


text \<open>The output lines and the request of the examples.\<close>

definition line_10 :: string where
  "line_10 = ''[download] 10.0% of ~50.00MiB ETA 00:30''"

definition line_100 :: string where
  "line_100 = ''[download] 100% of 50.00MiB''"

definition line_50 :: string where
  "line_50 = ''[download] 50.0% of ~50.00MiB ETA 00:15''"

definition line_dest :: string where
  "line_dest = ''[download] Destination: /app/temp/j1/Video.mp4''"

definition line_eta :: string where
  "line_eta = ''ETA 00:30''"

definition post0 :: event where
  "post0 = Post (Some ''https://example.com/v'') None ''j1'' None"

definition job0 :: job where
  "job0 = \<lparr>jobId = Some ''j1'', status = Some Initializing, progress = Some (Num 0),
     stage = Some (Text ''Starting download...''), url = Some ''https://example.com/v'',
     format_id = None, totalSize = None, eta = None, error = None\<rparr>"

section \<open>The concurrency gate: bound and order\<close>








lemma processQueue_throw:
  "\<not> maxConcurrentDownloads m \<le> Map_size (activeDownloads m) \<Longrightarrow> queue m = job # rest \<Longrightarrow>
   job_execute job = Throws msg \<Longrightarrow>
   processQueue m =
     processQueue (m\<lparr>queue := rest,
       activeDownloads := AList.delete (job_jobId job)
          (AList.update (job_jobId job) job (activeDownloads m)),
       emitted := emitted m @ [Started (job_jobId job)
          (Map_size (AList.update (job_jobId job) job (activeDownloads m))) (length rest),
          Failed_event (job_jobId job) msg]\<rparr>)"
  by (subst processQueue.simps) (simp add: Let_def)













section \<open>One subscription per connection\<close>



section \<open>Validation of the request\<close>

text \<open>
  The claim C7 as stated fails for a malformed URL: the text \<open>not a url\<close> is accepted,
  the request is not answered with an error, and the download tool is spawned with
  that text as its last argument.
\<close>

theorem malformed_url_counterexample:
  "fst (post_download (Some ''not a url'') None ''j1'' None server0) = Pending \<and>
   map fst (spawned (snd (post_download (Some ''not a url'') None ''j1'' None server0))) = [''yt-dlp''] \<and>
   map (last \<circ> snd) (spawned (snd (post_download (Some ''not a url'') None ''j1'' None server0))) =
     [''not a url'']"
  by (simp add: post_download_def truthy_def server0_def Let_def mkdir_tempDir_def ytdlpArgs_def)

text \<open>
  C7, amended. A request whose body has no \<open>url\<close>, or an empty one, is answered at
  once with status 400 and changes nothing: no job is registered and no process is
  spawned. Any other \<open>url\<close> is accepted whatever its form: the answer is not a 400, and
  unless the temporary directory cannot be made one process is spawned with the
  \<open>url\<close> as its last argument.
\<close>

theorem url_validation:
  "(\<not> truthy u \<longrightarrow>
      post_download u fid uuid mkdir_err s =
        (Json_error 400 (''Missing '' @ [CHR 0x22] @ ''url'' @ [CHR 0x22] @ '' in request body''), s)) \<and>
   (truthy u \<longrightarrow>
      (\<forall>msg. fst (post_download u fid uuid mkdir_err s) \<noteq> Json_error 400 msg) \<and>
      (mkdir_err = None \<longrightarrow>
         (\<exists>args. spawned (snd (post_download u fid uuid mkdir_err s)) =
                    spawned s @ [(YT_DLP_PATH s, args)] \<and> Some (last args) = u)))"
  by (auto simp add: post_download_def Let_def truthy_def mkdir_tempDir_def ytdlpArgs_def
        split: option.splits)

theorem url_validation_witness:
  "\<not> truthy (Some '''') \<and>
   post_download (Some '''') None ''j1'' None server0 =
     (Json_error 400 (''Missing '' @ [CHR 0x22] @ ''url'' @ [CHR 0x22] @ '' in request body''), server0) \<and>
   truthy (Some ''not a url'') \<and>
   fst (post_download (Some ''not a url'') None ''j1'' None server0) \<noteq> Json_error 400 ''x'' \<and>
   (\<exists>args. spawned (snd (post_download (Some ''not a url'') None ''j1'' None server0)) =
              spawned server0 @ [(YT_DLP_PATH server0, args)] \<and> Some (last args) = Some ''not a url'')"
proof -
  have h1: "\<not> truthy (Some '''')" by (simp add: truthy_def)
  have h2: "truthy (Some ''not a url'')" by (simp add: truthy_def)
  from url_validation [of "Some ''''" None "''j1''" None server0] h1
  have a: "post_download (Some '''') None ''j1'' None server0 =
     (Json_error 400 (''Missing '' @ [CHR 0x22] @ ''url'' @ [CHR 0x22] @ '' in request body''), server0)"
    by (rule conjunct1 [THEN mp])
  from url_validation [of "Some ''not a url''" None "''j1''" None server0] h2
  have b: "(\<forall>msg. fst (post_download (Some ''not a url'') None ''j1'' None server0) \<noteq> Json_error 400 msg) \<and>
      ((None :: string option) = None \<longrightarrow>
         (\<exists>args. spawned (snd (post_download (Some ''not a url'') None ''j1'' None server0)) =
                    spawned server0 @ [(YT_DLP_PATH server0, args)] \<and> Some (last args) = Some ''not a url''))"
    by (rule conjunct2 [THEN mp])
  from h1 h2 a b show ?thesis by simp
qed

section \<open>What the percentage pattern captures\<close>

lemma rmatch_lit:
  "rmatch (lit l @ r) s = (if prefix l s then rmatch r (drop (length l) s) else None)"
proof (induction l arbitrary: s)
  case Nil
  show ?case by (simp add: lit_def)
next
  case (Cons c l)
  have unf: "lit (c # l) @ r = Atom (Chr c) Once # (lit l @ r)" by (simp add: lit_def)
  show ?case
  proof (cases s)
    case Nil
    then show ?thesis unfolding unf by simp
  next
    case (Cons x xs)
    then show ?thesis unfolding unf using Cons.IH [of xs] by auto
  qed
qed

lemma rmatch_close_length:
  "rmatch r s = Some (b, e) \<Longrightarrow> GroupClose \<in> set r \<Longrightarrow> length e \<le> length s"
proof (induction r s arbitrary: b e rule: rmatch.induct)
  case (3 r s)
  then show ?case by auto
next
  case (2 r s)
  then show ?case by (auto split: prod.splits)
next
  case (7 c r x xs)
  then show ?case by (fastforce split: if_splits option.splits)
next
  case (9 c r x xs)
  then show ?case by (fastforce split: if_splits option.splits)
next
  case (11 c r x xs)
  then show ?case by (fastforce split: if_splits option.splits)
qed (auto split: if_splits)

lemma rmatch_star_rest:
  "rmatch (Atom c Star # r) s = Some m \<Longrightarrow> \<exists>s'. rmatch r s' = Some m"
proof (induction s)
  case Nil
  then show ?case by auto
next
  case (Cons x xs)
  then show ?case by (auto split: if_splits option.splits)
qed

lemma rmatch_plus_rest:
  "rmatch (Atom c Plus # r) s = Some m \<Longrightarrow> \<exists>s'. rmatch r s' = Some m"
  by (cases s) (auto split: if_splits dest: rmatch_star_rest)

lemma rsearch_rmatch: "rsearch r s = Some m \<Longrightarrow> \<exists>s'. rmatch r s' = Some m"
  by (induction s) (auto split: option.splits)

lemma download_group_digit:
  assumes "rmatch (GroupOpen # Atom Digit Plus # Atom (Chr CHR ''.'') Opt # Atom Digit Star #
                   GroupClose # [Atom (Chr CHR ''%'') Once]) s = Some (b, e)"
  shows "\<exists>x t. take (length b - length e) b = x # t \<and> is_digit x"
proof -
  let ?r = "[Atom (Chr CHR ''.'') Opt, Atom Digit Star, GroupClose, Atom (Chr CHR ''%'') Once]"
  from assms obtain b0 where b: "b = s" and m: "rmatch (Atom Digit Plus # ?r) s = Some (b0, e)"
    by auto
  from m obtain x xs where s: "s = x # xs" and d: "is_digit x"
    and m': "rmatch (Atom Digit Star # ?r) xs = Some (b0, e)"
    by (cases s) (auto split: if_splits)
  from rmatch_close_length [OF m'] have "length e \<le> length xs" by simp
  then have "take (length b - length e) b = x # take (length xs - length e) xs"
    using b s by (simp add: Suc_diff_le)
  with d show ?thesis by blast
qed

lemma downloadRe_capture:
  assumes "js_match downloadRe output = Some g"
  shows "\<exists>x t. g = x # t \<and> is_digit x"
proof -
  from assms obtain b e where se: "rsearch downloadRe output = Some (b, e)"
    and g: "g = take (length b - length e) b"
    by (auto simp add: js_match_def)
  from rsearch_rmatch [OF se] obtain s1 where "rmatch downloadRe s1 = Some (b, e)" by blast
  then have "rmatch (Atom Space Plus # GroupOpen # Atom Digit Plus # Atom (Chr CHR ''.'') Opt #
               Atom Digit Star # GroupClose # [Atom (Chr CHR ''%'') Once])
               (drop (length ''[download]'') s1) = Some (b, e)"
    unfolding downloadRe_def rmatch_lit by (simp split: if_splits)
  from rmatch_plus_rest [OF this] obtain s2 where
    "rmatch (GroupOpen # Atom Digit Plus # Atom (Chr CHR ''.'') Opt # Atom Digit Star #
             GroupClose # [Atom (Chr CHR ''%'') Once]) s2 = Some (b, e)" by blast
  from download_group_digit [OF this] g show ?thesis by simp
qed

lemma parseFloat_digit:
  assumes "is_digit x"
  shows "\<exists>p. parseFloat (x # t) = Num p \<and> 0 \<le> p"
proof -
  have "takeWhile is_digit (x # t) \<noteq> []" using assms by simp
  then show ?thesis
    unfolding parseFloat_def Let_def by (simp del: takeWhile.simps dropWhile.simps)
qed

lemma progress_clamped:
  assumes "js_match downloadRe output = Some g"
  shows "\<exists>p. Math_min (parseFloat g) (Num 99) = Num p \<and> 0 \<le> p \<and> p \<le> 99"
proof -
  from downloadRe_capture [OF assms] obtain x t where "g = x # t" and "is_digit x" by blast
  with parseFloat_digit obtain p where "parseFloat g = Num p" and "0 \<le> p" by blast
  then show ?thesis by (simp add: min_def)
qed

section \<open>Progress while downloading\<close>

lemma run_snoc: "run s (es @ [e]) = step (run s es) e"
  by (induction es arbitrary: s) auto

lemma set_and_broadcast_proj [simp]:
  "activeJobs (set_and_broadcast jid upd s) = (activeJobs s)(jid \<mapsto> upd (spread (activeJobs s jid)))"
  "requests (set_and_broadcast jid upd s) = requests s"
  "files (set_and_broadcast jid upd s) = files s"
  "timers (set_and_broadcast jid upd s) = timers s"
  "now (set_and_broadcast jid upd s) = now s"
  "dirname (set_and_broadcast jid upd s) = dirname s"
  by (simp_all add: set_and_broadcast_def merge_update_def)

lemma rm_tempDir_proj [simp]:
  "activeJobs (rm_tempDir jid s) = activeJobs s"
  "requests (rm_tempDir jid s) = requests s"
  "timers (rm_tempDir jid s) = timers s"
  "now (rm_tempDir jid s) = now s"
  "dirname (rm_tempDir jid s) = dirname s"
  by (simp_all add: rm_tempDir_def)

lemma inv_upd:
  assumes "progress_inv s" and "job_ok j'"
    and "phase r' = Running \<longrightarrow> progress j' \<noteq> Some (Num 100)"
    and "activeJobs s' = (activeJobs s)(jid \<mapsto> j')"
    and "requests s' = (requests s)(jid \<mapsto> r')"
  shows "progress_inv s'"
  using assms unfolding progress_inv_def by (simp split: if_splits)

lemma inv_keep:
  assumes "progress_inv s" and "activeJobs s' = activeJobs s"
    and "requests s' = (requests s)(jid \<mapsto> r')"
    and "phase r' = Running \<longrightarrow> (\<exists>r. requests s jid = Some r \<and> phase r = Running)"
  shows "progress_inv s'"
  using assms unfolding progress_inv_def by (auto split: if_splits)

lemma spread_ok:
  assumes "progress_inv s"
  shows "job_ok (spread (activeJobs s jid))"
  using assms by (auto simp add: progress_inv_def spread_def job_ok_def empty_job_def split: option.splits)

lemma spread_running:
  assumes "progress_inv s" and "requests s jid = Some r" and "phase r = Running"
  shows "progress (spread (activeJobs s jid)) \<noteq> Some (Num 100)"
  using assms by (auto simp add: progress_inv_def spread_def empty_job_def split: option.splits)

lemma inv_stdout:
  assumes "progress_inv s" and "requests s jid = Some r" and "phase r = Running" and "req_jobId r = jid"
  shows "progress_inv (store (on_stdout out (r, s)))"
proof (cases "js_match downloadRe out")
  case None
  show ?thesis
  proof (rule inv_keep [OF assms(1)])
    show "activeJobs (store (on_stdout out (r, s))) = activeJobs s"
      using None by (simp add: store_def on_stdout_def Let_def split: option.splits)
    show "requests (store (on_stdout out (r, s))) = (requests s)(jid \<mapsto> fst (on_stdout out (r, s)))"
      using None assms(4) by (simp add: store_def on_stdout_def Let_def split: option.splits)
    show "phase (fst (on_stdout out (r, s))) = Running \<longrightarrow>
            (\<exists>r. requests s jid = Some r \<and> phase r = Running)"
      using assms(2,3) by simp
  qed
next
  case (Some g)
  obtain p where p: "Math_min (parseFloat g) (Num 99) = Num p" "0 \<le> p" "p \<le> 99"
    using progress_clamped [OF Some] by blast
  let ?j = "the (activeJobs (store (on_stdout out (r, s))) jid)"
  have aj: "activeJobs (store (on_stdout out (r, s))) = (activeJobs s)(jid \<mapsto> ?j)"
    using Some assms(4) by (simp add: store_def on_stdout_def Let_def split: option.splits)
  have st: "status ?j = Some Downloading" and pr: "progress ?j = Some (Num p)"
    using Some assms(4) p(1) by (simp_all add: store_def on_stdout_def Let_def split: option.splits)
  show ?thesis
  proof (rule inv_upd [OF assms(1) _ _ aj])
    show "job_ok ?j" using st pr p by (simp add: job_ok_def)
    show "phase (fst (on_stdout out (r, s))) = Running \<longrightarrow> progress ?j \<noteq> Some (Num 100)"
      using pr p by simp
    show "requests (store (on_stdout out (r, s))) = (requests s)(jid \<mapsto> fst (on_stdout out (r, s)))"
      using assms(4) by (simp add: store_def on_stdout_def Let_def split: option.splits)
  qed
qed

lemma inv_close:
  assumes "progress_inv s" and "requests s jid = Some r" and "phase r = Running" and "req_jobId r = jid"
  shows "progress_inv (store (on_close code stat_ok (r, s)))"
proof -
  let ?j = "the (activeJobs (store (on_close code stat_ok (r, s))) jid)"
  note ok = spread_ok [OF assms(1), of jid]
  note nr = spread_running [OF assms(1,2,3)]
  have aj: "activeJobs (store (on_close code stat_ok (r, s))) = (activeJobs s)(jid \<mapsto> ?j)"
    using assms(4) by (simp add: store_def on_close_def Let_def)
  show ?thesis
  proof (rule inv_upd [OF assms(1) _ _ aj])
    show "job_ok ?j"
      using assms(4) ok nr by (simp add: store_def on_close_def Let_def job_ok_def)
    show "phase (fst (on_close code stat_ok (r, s))) = Running \<longrightarrow> progress ?j \<noteq> Some (Num 100)"
      by (simp add: on_close_def Let_def)
    show "requests (store (on_close code stat_ok (r, s))) =
            (requests s)(jid \<mapsto> fst (on_close code stat_ok (r, s)))"
      using assms(4) by (simp add: store_def on_close_def Let_def)
  qed
qed

lemma inv_stream_end:
  assumes "progress_inv s" and "requests s jid = Some r" and "req_jobId r = jid"
  shows "progress_inv (store (on_stream_end (r, s)))"
proof -
  let ?j = "the (activeJobs (store (on_stream_end (r, s))) jid)"
  have aj: "activeJobs (store (on_stream_end (r, s))) = (activeJobs s)(jid \<mapsto> ?j)"
    using assms(3) by (simp add: store_def on_stream_end_def Let_def)
  show ?thesis
  proof (rule inv_upd [OF assms(1) _ _ aj])
    show "job_ok ?j"
      using assms(3) by (simp add: store_def on_stream_end_def Let_def job_ok_def)
    show "phase (fst (on_stream_end (r, s))) = Running \<longrightarrow> progress ?j \<noteq> Some (Num 100)"
      by (simp add: on_stream_end_def Let_def)
    show "requests (store (on_stream_end (r, s))) = (requests s)(jid \<mapsto> fst (on_stream_end (r, s)))"
      using assms(3) by (simp add: store_def on_stream_end_def Let_def)
  qed
qed

lemma inv_stream_error:
  assumes "progress_inv s" and "requests s jid = Some r" and "req_jobId r = jid"
  shows "progress_inv (store (on_stream_error (r, s)))"
proof (rule inv_keep [OF assms(1)])
  show "activeJobs (store (on_stream_error (r, s))) = activeJobs s"
    by (simp add: store_def on_stream_error_def)
  show "requests (store (on_stream_error (r, s))) = (requests s)(jid \<mapsto> fst (on_stream_error (r, s)))"
    using assms(3) by (simp add: store_def on_stream_error_def)
  show "phase (fst (on_stream_error (r, s))) = Running \<longrightarrow>
          (\<exists>r. requests s jid = Some r \<and> phase r = Running)"
    by (simp add: on_stream_error_def)
qed

lemma inv_client_lost:
  assumes "progress_inv s" and "requests s jid = Some r" and "req_jobId r = jid"
  shows "progress_inv (store (on_client_lost (r, s)))"
proof (rule inv_keep [OF assms(1)])
  show "activeJobs (store (on_client_lost (r, s))) = activeJobs s"
    by (simp add: store_def on_client_lost_def)
  show "requests (store (on_client_lost (r, s))) = (requests s)(jid \<mapsto> fst (on_client_lost (r, s)))"
    using assms(3) by (simp add: store_def on_client_lost_def)
  show "phase (fst (on_client_lost (r, s))) = Running \<longrightarrow>
          (\<exists>r. requests s jid = Some r \<and> phase r = Running)"
    by (simp add: on_client_lost_def)
qed

lemma inv_post:
  assumes "progress_inv s" and "activeJobs s uuid = None" and "requests s uuid = None"
  shows "progress_inv (snd (post_download u fid uuid mkdir_err s))"
proof (cases "truthy u")
  case False
  then show ?thesis using assms(1) by (simp add: post_download_def)
next
  case True
  show ?thesis
  proof (cases mkdir_err)
    case None
    then show ?thesis using True assms
      unfolding progress_inv_def
      by (simp add: post_download_def Let_def mkdir_tempDir_def job_ok_def)
  next
    case (Some msg)
    then show ?thesis using True assms
      unfolding progress_inv_def
      by (simp add: post_download_def Let_def spread_def job_ok_def)
  qed
qed

lemma fold_delete_Some:
  "fold (\<lambda>(t, jid) m. if t \<le> n then m(jid := None) else m) ts m k = Some j \<Longrightarrow> m k = Some j"
proof (induction ts arbitrary: m)
  case Nil
  then show ?case by simp
next
  case (Cons a ts)
  obtain t jid where a: "a = (t, jid)" by (cases a)
  from Cons.prems have
    "fold (\<lambda>(t, jid) m. if t \<le> n then m(jid := None) else m) ts
       (if t \<le> n then m(jid := None) else m) k = Some j"
    by (simp add: a)
  from Cons.IH [OF this] show ?case by (simp split: if_splits)
qed

lemma inv_clock:
  assumes "progress_inv s"
  shows "progress_inv (advance_clock t s)"
  unfolding progress_inv_def
proof (intro allI impI)
  fix jid j
  assume "activeJobs (advance_clock t s) jid = Some j"
  then have "activeJobs s jid = Some j"
    by (simp add: advance_clock_def fire_timers_def) (rule fold_delete_Some)
  moreover have "requests (advance_clock t s) = requests s"
    by (simp add: advance_clock_def fire_timers_def)
  ultimately show "job_ok j \<and> (\<forall>r. requests (advance_clock t s) jid = Some r \<longrightarrow>
      phase r = Running \<longrightarrow> progress j \<noteq> Some (Num 100))"
    using assms by (simp add: progress_inv_def)
qed

lemma inv_deliver:
  assumes "progress_inv s"
    and "\<And>r. requests s jid = Some r \<Longrightarrow> phase r = ph \<Longrightarrow> req_jobId r = jid \<Longrightarrow>
           progress_inv (store (handler (r, s)))"
  shows "progress_inv (deliver jid ph handler s)"
  using assms by (simp add: deliver_def split: option.splits)

lemma inv_step: "progress_inv s \<Longrightarrow> progress_inv (step s e)"
proof (cases e)
  case (Post u fid uuid mkdir_err)
  assume "progress_inv s"
  then show ?thesis using Post inv_post by simp
next
  case (Stdout jid out)
  assume inv: "progress_inv s"
  show ?thesis unfolding Stdout step.simps using inv by (rule inv_deliver) (rule inv_stdout [OF inv])
next
  case (Close jid code stat_ok)
  assume inv: "progress_inv s"
  show ?thesis unfolding Close step.simps using inv by (rule inv_deliver) (rule inv_close [OF inv])
next
  case (Stream_end jid)
  assume inv: "progress_inv s"
  show ?thesis unfolding Stream_end step.simps using inv by (rule inv_deliver) (rule inv_stream_end [OF inv])
next
  case (Stream_error jid)
  assume inv: "progress_inv s"
  show ?thesis unfolding Stream_error step.simps using inv by (rule inv_deliver) (rule inv_stream_error [OF inv])
next
  case (Client_lost jid)
  assume inv: "progress_inv s"
  show ?thesis unfolding Client_lost step.simps using inv by (rule inv_deliver) (rule inv_client_lost [OF inv])
next
  case (Clock t)
  assume "progress_inv s"
  then show ?thesis using Clock inv_clock by simp
next
  case Ws_connect
  assume "progress_inv s"
  then show ?thesis using Ws_connect by (simp add: progress_inv_def on_connection_def)
next
  case (Ws_message i message)
  assume "progress_inv s"
  then show ?thesis using Ws_message by (simp add: progress_inv_def)
next
  case (Ws_close i)
  assume "progress_inv s"
  then show ?thesis using Ws_close by (simp add: progress_inv_def)
qed

lemma inv_run: "progress_inv s \<Longrightarrow> progress_inv (run s es)"
  by (induction es arbitrary: s) (auto intro: inv_step)

lemmas re_defs = js_match_def downloadRe_def sizeRe_def etaRe_def destRe_def mergerRe_def lit_def
  is_digit_def is_space_def is_word_def is_line_terminator_def

lemmas handler_defs = post_download_def truthy_def Let_def mkdir_tempDir_def
  broadcastProgress_def deliver_def store_def on_stdout_def on_close_def on_stream_end_def
  on_stream_error_def on_client_lost_def set_and_broadcast_def merge_update_def spread_def rm_tempDir_def
  advance_clock_def fire_timers_def

lemma match_line_10:
  "js_match downloadRe line_10 = Some ''10.0''"
  "js_match sizeRe line_10 = Some ''50.00MiB''"
  "js_match etaRe line_10 = Some ''00:30''"
  "js_match destRe line_10 = None"
  "js_match mergerRe line_10 = None"
  by (simp_all add: line_10_def re_defs)

lemma match_line_50:
  "js_match downloadRe line_50 = Some ''50.0''"
  "js_match sizeRe line_50 = Some ''50.00MiB''"
  "js_match etaRe line_50 = Some ''00:15''"
  "js_match destRe line_50 = None"
  "js_match mergerRe line_50 = None"
  by (simp_all add: line_50_def re_defs)

lemma match_line_100:
  "js_match downloadRe line_100 = Some ''100''"
  "js_match sizeRe line_100 = Some ''50.00MiB''"
  "js_match etaRe line_100 = None"
  "js_match destRe line_100 = None"
  "js_match mergerRe line_100 = None"
  by (simp_all add: line_100_def re_defs)

lemma match_line_dest:
  "js_match downloadRe line_dest = None"
  "js_match sizeRe line_dest = None"
  "js_match etaRe line_dest = None"
  "js_match destRe line_dest = Some ''/app/temp/j1/Video.mp4''"
  "js_match mergerRe line_dest = None"
  by (simp_all add: line_dest_def re_defs)

lemma match_line_eta:
  "js_match downloadRe line_eta = None"
  "js_match sizeRe line_eta = None"
  "js_match etaRe line_eta = Some ''00:30''"
  "js_match destRe line_eta = None"
  "js_match mergerRe line_eta = None"
  by (simp_all add: line_eta_def re_defs)

lemma parse_vals:
  "parseFloat ''10.0'' = Num 10" "parseFloat ''50.0'' = Num 50" "parseFloat ''100'' = Num 100"
  by (simp_all add: parseFloat_def is_digit_def digits_val_def digit_val_def)

lemma trim_path: "trim ''/app/temp/j1/Video.mp4'' = ''/app/temp/j1/Video.mp4''"
  by (simp add: trim_def is_space_def)

text \<open>
  The claim C1 as stated fails: the tool reports 50 percent and then 10 percent (as it
  does when it starts on the second of two streams), and the progress of the job, which
  is downloading all along, goes from 50 down to 10.
\<close>

theorem progress_regresses_counterexample:
  "job_status (run server0 [post0, Stdout ''j1'' line_50]) ''j1'' = Some Downloading \<and>
   job_progress (run server0 [post0, Stdout ''j1'' line_50]) ''j1'' = Some (Num 50) \<and>
   job_status (run server0 [post0, Stdout ''j1'' line_50, Stdout ''j1'' line_10]) ''j1'' = Some Downloading \<and>
   job_progress (run server0 [post0, Stdout ''j1'' line_50, Stdout ''j1'' line_10]) ''j1'' = Some (Num 10)"
  by (simp add: job_status_def job_progress_def post0_def server0_def handler_defs
        match_line_10 match_line_50 parse_vals)

text \<open>
  C1, amended. From the start of the server, after any sequence of events, every
  registered job that is downloading has a progress that is a number from 0 to 99 (the
  percentage of the last progress line, cut at 99; it may be lower than before), and a
  registered job has progress 100 only when its status is streaming or completed.
\<close>

theorem progress_clamped_while_downloading:
  assumes "startup s" and "activeJobs (run s es) jid = Some j"
  shows "(status j = Some Downloading \<longrightarrow> (\<exists>p. progress j = Some (Num p) \<and> 0 \<le> p \<and> p \<le> 99)) \<and>
         (progress j = Some (Num 100) \<longrightarrow> status j = Some Streaming \<or> status j = Some Completed)"
proof -
  have "progress_inv s" using assms(1) by (simp add: startup_def progress_inv_def)
  then have "progress_inv (run s es)" by (rule inv_run)
  with assms(2) have "job_ok j" by (simp add: progress_inv_def)
  then show ?thesis by (simp add: job_ok_def)
qed

theorem progress_clamped_while_downloading_witness:
  "startup server0 \<and>
   activeJobs (run server0 [post0, Stdout ''j1'' line_10, Stdout ''j1'' line_100]) ''j1'' =
     Some (job0\<lparr>status := Some Downloading, progress := Some (Num 99),
       stage := Some (Downloading_percent (Num 100)), totalSize := Some ''50.00MiB'',
       eta := Some ''00:30''\<rparr>) \<and>
   (\<exists>p. Some (Num 99) = Some (Num p) \<and> 0 \<le> p \<and> p \<le> 99) \<and>
   activeJobs (run server0 [post0, Stdout ''j1'' line_dest, Close ''j1'' (Some 0) True]) ''j1'' =
     Some (job0\<lparr>status := Some Streaming, progress := Some (Num 100),
       stage := Some (Text ''Sending to browser...'')\<rparr>) \<and>
   (Some Streaming = Some Streaming \<or> Some Streaming = Some Completed)"
proof -
  let ?j = "job0\<lparr>status := Some Downloading, progress := Some (Num 99),
       stage := Some (Downloading_percent (Num 100)), totalSize := Some ''50.00MiB'',
       eta := Some ''00:30''\<rparr>"
  let ?k = "job0\<lparr>status := Some Streaming, progress := Some (Num 100),
       stage := Some (Text ''Sending to browser...'')\<rparr>"
  have h1: "startup server0" by (simp add: startup_def server0_def)
  have h2: "activeJobs (run server0 [post0, Stdout ''j1'' line_10, Stdout ''j1'' line_100]) ''j1'' = Some ?j"
    by (simp add: post0_def job0_def server0_def handler_defs match_line_10 match_line_100 parse_vals)
  have h3: "status ?j = Some Downloading" by simp
  from progress_clamped_while_downloading [OF h1 h2] h3
  have "\<exists>p. progress ?j = Some (Num p) \<and> 0 \<le> p \<and> p \<le> 99" by blast
  then have c1: "\<exists>p. Some (Num 99) = Some (Num p) \<and> 0 \<le> p \<and> p \<le> 99" by simp
  have h4: "activeJobs (run server0 [post0, Stdout ''j1'' line_dest, Close ''j1'' (Some 0) True]) ''j1'' = Some ?k"
    by (simp add: post0_def job0_def server0_def handler_defs match_line_dest trim_path)
  have h5: "progress ?k = Some (Num 100)" by simp
  from progress_clamped_while_downloading [OF h1 h4] h5
  have "status ?k = Some Streaming \<or> status ?k = Some Completed" by blast
  then have c2: "Some Streaming = Some Streaming \<or> Some Streaming = Some Completed" by simp
  from h1 h2 c1 h4 c2 show ?thesis by (intro conjI)
qed

section \<open>Registry updates and ids that are not registered\<close>

text \<open>
  The idiom by which the handlers write the registry has no guard of its own: on an id
  without an entry it would store the properties written.
\<close>

lemma merge_update_no_guard:
  "reg jid = None \<Longrightarrow> merge_update jid upd reg jid = Some (upd empty_job)"
  by (simp add: merge_update_def spread_def)



















section \<open>What one chunk of output updates\<close>

text \<open>
  The claim C6 as stated fails: on a line that carries an ETA token and no percentage
  the ETA pattern matches, and the job keeps the state it had, without an \<open>eta\<close>.
\<close>

theorem eta_without_percentage_counterexample:
  "js_match etaRe line_eta = Some ''00:30'' \<and>
   activeJobs (run server0 [post0]) ''j1'' = Some job0 \<and>
   activeJobs (run server0 [post0, Stdout ''j1'' line_eta]) ''j1'' = Some job0 \<and>
   eta job0 = None"
  by (simp add: post0_def job0_def server0_def handler_defs match_line_eta)

text \<open>
  C6, amended. For every chunk of output: the destination and merger announcements
  set the variable \<open>downloadedFile\<close> (the merger after the destination) whatever else
  is on the line, and do not touch the registry. Without a download percentage the state
  of the server is unchanged, whatever size or ETA token the line carries. With a
  percentage the job gets the status downloading, the percentage cut at 99 as progress
  and the stage label; its \<open>totalSize\<close> changes only if the size pattern matches and its
  \<open>eta\<close> only if the ETA pattern matches; its other properties stay. The handler is
  total: no line raises an error.
\<close>

theorem parser_field_updates:
  "on_stdout output (r, s) = (r', s') \<Longrightarrow>
   downloadedFile r' =
     (case js_match mergerRe output of
        Some m \<Rightarrow> Some (trim m)
      | None \<Rightarrow> (case js_match destRe output of Some d \<Rightarrow> Some (trim d) | None \<Rightarrow> downloadedFile r)) \<and>
   (js_match downloadRe output = None \<longrightarrow> s' = s) \<and>
   (\<forall>g. js_match downloadRe output = Some g \<longrightarrow>
      (\<exists>j'. activeJobs s' (req_jobId r) = Some j' \<and>
         status j' = Some Downloading \<and>
         progress j' = Some (Math_min (parseFloat g) (Num 99)) \<and>
         stage j' = Some (Downloading_percent (parseFloat g)) \<and>
         totalSize j' = (case js_match sizeRe output of Some z \<Rightarrow> Some z
                         | None \<Rightarrow> totalSize (spread (activeJobs s (req_jobId r)))) \<and>
         eta j' = (case js_match etaRe output of Some e \<Rightarrow> Some e
                   | None \<Rightarrow> eta (spread (activeJobs s (req_jobId r)))) \<and>
         jobId j' = jobId (spread (activeJobs s (req_jobId r))) \<and>
         url j' = url (spread (activeJobs s (req_jobId r))) \<and>
         format_id j' = format_id (spread (activeJobs s (req_jobId r))) \<and>
         error j' = error (spread (activeJobs s (req_jobId r)))))"
  by (auto simp add: on_stdout_def Let_def set_and_broadcast_def merge_update_def
        split: option.splits)

text \<open>
  On the line with 100 percent and a size but no ETA, for the job that the line with 10
  percent has left with the ETA \<open>00:30\<close>: the progress becomes 99, the size is set and
  the ETA stays.
\<close>

theorem parser_field_updates_witness:
  "on_stdout line_100
      (\<lparr>req_jobId = ''j1'', res = Pending, downloadedFile = None, phase = Running\<rparr>,
       server0\<lparr>activeJobs := [''j1'' \<mapsto> job0\<lparr>eta := Some ''00:30''\<rparr>]\<rparr>) =
     (\<lparr>req_jobId = ''j1'', res = Pending, downloadedFile = None, phase = Running\<rparr>,
      server0\<lparr>activeJobs := [''j1'' \<mapsto> job0\<lparr>status := Some Downloading, progress := Some (Num 99),
         stage := Some (Downloading_percent (Num 100)), totalSize := Some ''50.00MiB'',
         eta := Some ''00:30''\<rparr>]\<rparr>) \<and>
   js_match downloadRe line_100 = Some ''100'' \<and>
   (\<exists>j'. [''j1'' \<mapsto> job0\<lparr>status := Some Downloading, progress := Some (Num 99),
         stage := Some (Downloading_percent (Num 100)), totalSize := Some ''50.00MiB'',
         eta := Some ''00:30''\<rparr>] ''j1'' = Some j' \<and>
      progress j' = Some (Num 99) \<and> totalSize j' = Some ''50.00MiB'' \<and> eta j' = Some ''00:30'') \<and>
   js_match downloadRe line_dest = None \<and>
   on_stdout line_dest
      (\<lparr>req_jobId = ''j1'', res = Pending, downloadedFile = None, phase = Running\<rparr>, server0) =
     (\<lparr>req_jobId = ''j1'', res = Pending, downloadedFile = Some ''/app/temp/j1/Video.mp4'',
       phase = Running\<rparr>, server0)"
proof -
  let ?r = "\<lparr>req_jobId = ''j1'', res = Pending, downloadedFile = None, phase = Running\<rparr>"
  let ?s = "server0\<lparr>activeJobs := [''j1'' \<mapsto> job0\<lparr>eta := Some ''00:30''\<rparr>]\<rparr>"
  let ?j = "job0\<lparr>status := Some Downloading, progress := Some (Num 99),
         stage := Some (Downloading_percent (Num 100)), totalSize := Some ''50.00MiB'',
         eta := Some ''00:30''\<rparr>"
  have h: "on_stdout line_100 (?r, ?s) = (?r, server0\<lparr>activeJobs := [''j1'' \<mapsto> ?j]\<rparr>)"
    by (simp add: job0_def server0_def handler_defs match_line_100 parse_vals)
  have m: "js_match downloadRe line_100 = Some ''100''" by (rule match_line_100(1))
  from parser_field_updates [OF h] m
  have "\<exists>j'. activeJobs (server0\<lparr>activeJobs := [''j1'' \<mapsto> ?j]\<rparr>) (req_jobId ?r) = Some j' \<and>
         status j' = Some Downloading \<and>
         progress j' = Some (Math_min (parseFloat ''100'') (Num 99)) \<and>
         stage j' = Some (Downloading_percent (parseFloat ''100'')) \<and>
         totalSize j' = (case js_match sizeRe line_100 of Some z \<Rightarrow> Some z
                         | None \<Rightarrow> totalSize (spread (activeJobs ?s (req_jobId ?r)))) \<and>
         eta j' = (case js_match etaRe line_100 of Some e \<Rightarrow> Some e
                   | None \<Rightarrow> eta (spread (activeJobs ?s (req_jobId ?r)))) \<and>
         jobId j' = jobId (spread (activeJobs ?s (req_jobId ?r))) \<and>
         url j' = url (spread (activeJobs ?s (req_jobId ?r))) \<and>
         format_id j' = format_id (spread (activeJobs ?s (req_jobId ?r))) \<and>
         error j' = error (spread (activeJobs ?s (req_jobId ?r)))"
    by blast
  then have "\<exists>j'. [''j1'' \<mapsto> ?j] ''j1'' = Some j' \<and>
      progress j' = Some (Num 99) \<and> totalSize j' = Some ''50.00MiB'' \<and> eta j' = Some ''00:30''"
    by (simp add: match_line_100 parse_vals spread_def)
  then have c1: "\<exists>j'. [''j1'' \<mapsto> ?j] ''j1'' = Some j' \<and>
      progress j' = Some (Num 99) \<and> totalSize j' = Some ''50.00MiB'' \<and> eta j' = Some ''00:30''" .
  let ?r' = "fst (on_stdout line_dest (?r, server0))"
  let ?s' = "snd (on_stdout line_dest (?r, server0))"
  have n: "js_match downloadRe line_dest = None" by (rule match_line_dest(1))
  have pair: "on_stdout line_dest (?r, server0) = (?r', ?s')" by simp
  from parser_field_updates [OF pair] n
  have d: "downloadedFile ?r' =
     (case js_match mergerRe line_dest of
        Some m \<Rightarrow> Some (trim m)
      | None \<Rightarrow> (case js_match destRe line_dest of Some d \<Rightarrow> Some (trim d)
                 | None \<Rightarrow> downloadedFile ?r))"
    and u: "?s' = server0" by blast+
  have rest: "req_jobId ?r' = ''j1''" "res ?r' = Pending" "phase ?r' = Running"
    by (simp_all add: on_stdout_def Let_def match_line_dest)
  have "downloadedFile ?r' = Some ''/app/temp/j1/Video.mp4''"
    using d by (simp add: match_line_dest trim_path)
  with rest have "?r' = \<lparr>req_jobId = ''j1'', res = Pending,
      downloadedFile = Some ''/app/temp/j1/Video.mp4'', phase = Running\<rparr>"
    by (cases ?r') simp
  with u pair have c2: "on_stdout line_dest (?r, server0) =
     (\<lparr>req_jobId = ''j1'', res = Pending, downloadedFile = Some ''/app/temp/j1/Video.mp4'',
       phase = Running\<rparr>, server0)" by simp
  from h m c1 n c2 show ?thesis by (intro conjI)
qed

section \<open>The life of one job\<close>

text \<open>
  The claim C2 as stated fails: when the tool emits exactly the two progress lines, no
  line has announced an output file, \<open>downloadedFile\<close> is still \<^verbatim>\<open>null\<close> at exit, and
  the job goes from downloading with progress 99 to failed, although the exit code is 0
  and the file could be found; the end of a file stream cannot follow.
\<close>

theorem two_lines_only_counterexample:
  "map (\<lambda>n. job_status (run server0 (take n
      [post0, Stdout ''j1'' line_10, Stdout ''j1'' line_100, Close ''j1'' (Some 0) True,
       Stream_end ''j1''])) ''j1'') [1, 2, 3, 4, 5] =
     [Some Initializing, Some Downloading, Some Downloading, Some Failed, Some Failed] \<and>
   job_progress (run server0
      [post0, Stdout ''j1'' line_10, Stdout ''j1'' line_100, Close ''j1'' (Some 0) True]) ''j1'' =
     Some (Num 99)"
  by (simp add: job_status_def job_progress_def post0_def server0_def handler_defs
        match_line_10 match_line_100 parse_vals)

text \<open>
  C2, amended. When the tool first announces its output file
  (\<^verbatim>\<open>[download] Destination: ...\<close>), then emits the two progress lines and exits
  with code 0, the file is found and its stream ends, the registry entry of the job is
  in turn: absent; initializing with progress 0 (also after the announcement, which the
  registry does not see); downloading with progress 10, \<open>totalSize\<close> \<open>50.00MiB\<close> and
  \<open>eta\<close> \<open>00:30\<close>; downloading with progress 99; streaming with progress 100;
  completed with progress 100.
\<close>

theorem job_lifecycle_with_destination:
  "map (\<lambda>n. activeJobs (run server0 (take n
      [post0, Stdout ''j1'' line_dest, Stdout ''j1'' line_10, Stdout ''j1'' line_100,
       Close ''j1'' (Some 0) True, Stream_end ''j1''])) ''j1'') [0, 1, 2, 3, 4, 5, 6] =
   [None, Some job0, Some job0,
    Some (job0\<lparr>status := Some Downloading, progress := Some (Num 10),
      stage := Some (Downloading_percent (Num 10)), totalSize := Some ''50.00MiB'',
      eta := Some ''00:30''\<rparr>),
    Some (job0\<lparr>status := Some Downloading, progress := Some (Num 99),
      stage := Some (Downloading_percent (Num 100)), totalSize := Some ''50.00MiB'',
      eta := Some ''00:30''\<rparr>),
    Some (job0\<lparr>status := Some Streaming, progress := Some (Num 100),
      stage := Some (Text ''Sending to browser...''), totalSize := Some ''50.00MiB'',
      eta := Some ''00:30''\<rparr>),
    Some (job0\<lparr>status := Some Completed, progress := Some (Num 100),
      stage := Some (Text ''Download complete!''), totalSize := Some ''50.00MiB'',
      eta := Some ''00:30''\<rparr>)]"
  by (simp add: post0_def job0_def server0_def handler_defs
        match_line_10 match_line_100 match_line_dest parse_vals trim_path)

section \<open>An error of the file stream\<close>

lemma stream_error_keeps_registry:
  "activeJobs (snd (on_stream_error (r, s))) = activeJobs s"
  by (simp add: on_stream_error_def)

text \<open>
  C3. The code does not do what the claim says: when the file stream of a streaming job
  reports an error, the temporary directory is removed, and the job stays registered
  with the status streaming and progress 100.
\<close>

theorem stream_error_leaves_streaming:
  "tempDir server0 ''j1'' \<in> files (run server0
      [post0, Stdout ''j1'' line_dest, Stdout ''j1'' line_10, Stdout ''j1'' line_100,
       Close ''j1'' (Some 0) True]) \<and>
   tempDir server0 ''j1'' \<notin> files (run server0
      [post0, Stdout ''j1'' line_dest, Stdout ''j1'' line_10, Stdout ''j1'' line_100,
       Close ''j1'' (Some 0) True, Stream_error ''j1'']) \<and>
   job_status (run server0
      [post0, Stdout ''j1'' line_dest, Stdout ''j1'' line_10, Stdout ''j1'' line_100,
       Close ''j1'' (Some 0) True, Stream_error ''j1'']) ''j1'' = Some Streaming \<and>
   job_progress (run server0
      [post0, Stdout ''j1'' line_dest, Stdout ''j1'' line_10, Stdout ''j1'' line_100,
       Close ''j1'' (Some 0) True, Stream_error ''j1'']) ''j1'' = Some (Num 100)"
  by (simp add: job_status_def job_progress_def post0_def server0_def handler_defs tempDir_def
        fs_rm_recursive_def match_line_10 match_line_100 match_line_dest parse_vals trim_path)

section \<open>Eviction\<close>

text \<open>
  A completed job is evicted: five minutes after the end of the file stream, and not
  before, the progress query answers 404.
\<close>

lemma completed_job_evicted:
  "get_progress ''j1'' (run server0
      [post0, Stdout ''j1'' line_dest, Stdout ''j1'' line_100, Close ''j1'' (Some 0) True,
       Stream_end ''j1'', Clock t]) =
     (if 5 * 60 * 1000 \<le> t then Json_error 404 ''Job not found''
      else Json_job (job0\<lparr>status := Some Completed, progress := Some (Num 100),
        stage := Some (Text ''Download complete!''), totalSize := Some ''50.00MiB''\<rparr>))"
  by (simp add: get_progress_def post0_def job0_def server0_def handler_defs
        match_line_100 match_line_dest parse_vals trim_path)

text \<open>
  C4. The code does not do what the claim says for a failed job: after the tool exits
  with code 1 no timer is set, and at every later time \<open>t\<close> the progress query still
  answers with the failed job.
\<close>

theorem failed_job_never_evicted:
  "timers (run server0 [post0, Close ''j1'' (Some 1) False]) = [] \<and>
   get_progress ''j1'' (run server0 [post0, Close ''j1'' (Some 1) False, Clock t]) =
     Json_job (job0\<lparr>status := Some Failed, stage := Some (Text ''Download failed''),
       error := Some (Exited_with_code (Some 1))\<rparr>)"
  by (simp add: get_progress_def post0_def job0_def server0_def handler_defs)

section \<open>Cleanup of the temporary directory\<close>

lemma rm_tempDir_clears: "p \<in> files (rm_tempDir jid s) \<Longrightarrow> \<not> prefix (tempDir s jid) p"
  by (auto simp add: rm_tempDir_def fs_rm_recursive_def split: if_splits)

lemma rm_tempDir_clears':
  "p \<in> files (rm_tempDir jid x) \<Longrightarrow> dirname x = dirname s \<Longrightarrow> \<not> prefix (tempDir s jid) p"
  using rm_tempDir_clears [of p jid x] by (simp add: tempDir_def)

lemma rm_tempDir_idem: "rm_tempDir jid (rm_tempDir jid s) = rm_tempDir jid s"
  by (auto simp add: rm_tempDir_def fs_rm_recursive_def tempDir_def)

lemma rm_tempDir_no_error:
  "fst (fs_rm_recursive (tempDir s jid) True (files s)) = None \<and>
   fst (fs_rm_recursive (tempDir s jid) True (files (rm_tempDir jid s))) = None"
  by (simp add: fs_rm_recursive_def)

lemma store_alt:
  "store x = (snd x)\<lparr>requests := (requests (snd x))(req_jobId (fst x) \<mapsto> fst x)\<rparr>"
  by (simp add: store_def split_beta)

lemma on_stdout_frame:
  "req_jobId (fst (on_stdout out (r, s))) = req_jobId r"
  "phase (fst (on_stdout out (r, s))) = phase r"
  "requests (snd (on_stdout out (r, s))) = requests s"
  "dirname (snd (on_stdout out (r, s))) = dirname s"
  "files (snd (on_stdout out (r, s))) = files s"
  by (simp_all add: on_stdout_def Let_def split: option.splits)

lemma on_close_frame:
  "req_jobId (fst (on_close code stat_ok (r, s))) = req_jobId r"
  "requests (snd (on_close code stat_ok (r, s))) = requests s"
  "dirname (snd (on_close code stat_ok (r, s))) = dirname s"
  by (simp_all add: on_close_def Let_def)

lemma on_stream_end_frame:
  "req_jobId (fst (on_stream_end (r, s))) = req_jobId r"
  "requests (snd (on_stream_end (r, s))) = requests s"
  "dirname (snd (on_stream_end (r, s))) = dirname s"
  by (simp_all add: on_stream_end_def Let_def)

lemma on_stream_error_frame:
  "req_jobId (fst (on_stream_error (r, s))) = req_jobId r"
  "requests (snd (on_stream_error (r, s))) = requests s"
  "dirname (snd (on_stream_error (r, s))) = dirname s"
  by (simp_all add: on_stream_error_def)

lemma on_client_lost_frame:
  "req_jobId (fst (on_client_lost (r, s))) = req_jobId r"
  "phase (fst (on_client_lost (r, s))) = Stalled"
  "snd (on_client_lost (r, s)) = s"
  by (simp_all add: on_client_lost_def)

lemma post_cleans:
  assumes "terminal (job_status (snd (post_download u fid uuid mkdir_err s)) jid)"
    and "\<not> terminal (job_status s jid)"
    and "p \<in> files (snd (post_download u fid uuid mkdir_err s))"
  shows "\<not> prefix (tempDir s jid) p"
proof (cases "truthy u")
  case False
  then show ?thesis using assms by (simp add: post_download_def)
next
  case True
  show ?thesis
  proof (cases mkdir_err)
    case None
    then show ?thesis using True assms(1,2)
      by (simp add: post_download_def Let_def mkdir_tempDir_def job_status_def terminal_def
            split: if_splits)
  next
    case (Some msg)
    have jid: "jid = uuid"
      using Some True assms(1,2)
      by (simp add: post_download_def Let_def job_status_def split: if_splits)
    have "p \<in> files (rm_tempDir uuid (set_and_broadcast uuid
              (\<lambda>j. j\<lparr>status := Some Failed, stage := Some (Text ''Failed''),
                     error := Some (Message msg)\<rparr>)
              (s\<lparr>activeJobs := (activeJobs s)(uuid \<mapsto>
                  \<lparr>jobId = Some uuid, status = Some Initializing, progress = Some (Num 0),
                   stage = Some (Text ''Starting download...''), url = u, format_id = fid,
                   totalSize = None, eta = None, error = None\<rparr>)\<rparr>)))"
      using Some True assms(3) by (simp add: post_download_def Let_def)
    then show ?thesis unfolding jid by (rule rm_tempDir_clears') simp
  qed
qed

lemma post_not_ended:
  "ended (snd (post_download u fid uuid mkdir_err s)) jid \<Longrightarrow> requests s uuid = None \<Longrightarrow>
   ended s jid"
  by (cases "truthy u"; cases mkdir_err)
     (auto simp add: post_download_def Let_def mkdir_tempDir_def ended_def split: if_splits)

lemma close_cleans:
  assumes "ended (store (on_close code stat_ok (r, s))) jid" and "\<not> ended s jid"
    and "p \<in> files (store (on_close code stat_ok (r, s)))"
  shows "\<not> prefix (tempDir s jid) p"
proof -
  have jid: "jid = req_jobId r"
    using assms(1,2) by (auto simp add: store_alt ended_def on_close_frame split: if_splits)
  have fin: "phase (fst (on_close code stat_ok (r, s))) = Done"
    using assms(1) jid by (auto simp add: store_alt ended_def on_close_frame)
  have "\<exists>x. dirname x = dirname s \<and> p \<in> files (rm_tempDir (req_jobId r) x)"
  proof (cases "code = Some 0 \<and> truthy (downloadedFile r)")
    case True
    then have "\<not> stat_ok" using fin by (auto simp add: on_close_def Let_def)
    then have "p \<in> files (rm_tempDir (req_jobId r) (set_and_broadcast (req_jobId r)
              (\<lambda>j. j\<lparr>status := Some Streaming, progress := Some (Num 100),
                     stage := Some (Text ''Sending to browser...'')\<rparr>) s))"
      using True assms(3) by (auto simp add: store_def on_close_def Let_def)
    then show ?thesis by (intro exI conjI) simp_all
  next
    case False
    then have "p \<in> files (rm_tempDir (req_jobId r) (set_and_broadcast (req_jobId r)
              (\<lambda>j. j\<lparr>status := Some Failed, stage := Some (Text ''Download failed''),
                     error := Some (Exited_with_code code)\<rparr>) s))"
      using assms(3) by (auto simp add: store_def on_close_def Let_def)
    then show ?thesis by (intro exI conjI) simp_all
  qed
  then obtain x where "dirname x = dirname s" and "p \<in> files (rm_tempDir (req_jobId r) x)"
    by blast
  then show ?thesis unfolding jid by (intro rm_tempDir_clears')
qed

lemma stream_end_cleans:
  assumes "ended (store (on_stream_end (r, s))) jid" and "\<not> ended s jid"
    and "p \<in> files (store (on_stream_end (r, s)))"
  shows "\<not> prefix (tempDir s jid) p"
proof -
  have jid: "jid = req_jobId r"
    using assms(1,2) by (auto simp add: store_alt ended_def on_stream_end_frame split: if_splits)
  have "p \<in> files (rm_tempDir (req_jobId r) (set_and_broadcast (req_jobId r)
              (\<lambda>j. j\<lparr>status := Some Completed, progress := Some (Num 100),
                     stage := Some (Text ''Download complete!'')\<rparr>) s))"
    using assms(3) by (simp add: store_def on_stream_end_def Let_def)
  then show ?thesis unfolding jid by (rule rm_tempDir_clears') simp
qed

lemma stream_error_cleans:
  assumes "ended (store (on_stream_error (r, s))) jid" and "\<not> ended s jid"
    and "p \<in> files (store (on_stream_error (r, s)))"
  shows "\<not> prefix (tempDir s jid) p"
proof -
  have jid: "jid = req_jobId r"
    using assms(1,2) by (auto simp add: store_alt ended_def on_stream_error_frame split: if_splits)
  have "p \<in> files (rm_tempDir (req_jobId r) s)"
    using assms(3) by (simp add: store_def on_stream_error_def)
  then show ?thesis unfolding jid by (rule rm_tempDir_clears)
qed

lemma stdout_not_ended:
  "ended (store (on_stdout out (r, s))) jid \<Longrightarrow> requests s (req_jobId r) = Some r \<Longrightarrow> ended s jid"
  by (auto simp add: store_alt ended_def on_stdout_frame split: option.splits if_splits)

lemma client_lost_not_ended:
  "ended (store (on_client_lost (r, s))) jid \<Longrightarrow> ended s jid"
  by (auto simp add: store_alt ended_def on_client_lost_frame split: option.splits if_splits)

lemma clock_not_ended: "ended (advance_clock t s) jid = ended s jid"
  by (simp add: advance_clock_def fire_timers_def ended_def)

text \<open>
  Every event that ends the run of the handler for a job (the exit of the tool when
  nothing is streamed, the end and the error of the file stream) leaves nothing under
  the temporary directory of the job.
\<close>

lemma ended_step_cleans:
  assumes "ended (step s e) jid" and "\<not> ended s jid" and "p \<in> files (step s e)"
  shows "\<not> prefix (tempDir s jid) p"
proof (cases e)
  case (Post u fid uuid mkdir_err)
  then show ?thesis using assms post_not_ended [of u fid uuid mkdir_err s jid]
    by (auto split: if_splits)
next
  case (Stdout j out)
  then show ?thesis using assms stdout_not_ended [of out _ s jid]
    by (auto simp add: deliver_def split: option.splits if_splits)
next
  case (Close j code stat_ok)
  then show ?thesis using assms close_cleans [of code stat_ok _ s jid p]
    by (auto simp add: deliver_def split: option.splits if_splits)
next
  case (Stream_end j)
  then show ?thesis using assms stream_end_cleans [of _ s jid p]
    by (auto simp add: deliver_def split: option.splits if_splits)
next
  case (Stream_error j)
  then show ?thesis using assms stream_error_cleans [of _ s jid p]
    by (auto simp add: deliver_def split: option.splits if_splits)
next
  case (Client_lost j)
  then show ?thesis using assms client_lost_not_ended [of _ s jid]
    by (auto simp add: deliver_def split: option.splits if_splits)
next
  case (Clock t)
  then show ?thesis using assms by (simp add: clock_not_ended)
next
  case Ws_connect
  then show ?thesis using assms by (simp add: on_connection_def ended_def)
next
  case (Ws_message i message)
  then show ?thesis using assms by (simp add: ended_def split: if_splits)
next
  case (Ws_close i)
  then show ?thesis using assms by (simp add: ended_def split: if_splits)
qed

text \<open>
  So does the request that fails before the tool is started (the only step that makes
  a job failed without ending a run of listeners), and a removal repeated, or made
  when the directory does not exist, reports no error and changes nothing more.
\<close>

lemma cleanup_on_every_handled_path:
  "(ended (step s e) jid \<and> \<not> ended s jid \<longrightarrow>
      (\<forall>p \<in> files (step s e). \<not> prefix (tempDir s jid) p)) \<and>
   (terminal (job_status (step s (Post u fid jid mkdir_err)) jid) \<and> \<not> terminal (job_status s jid) \<longrightarrow>
      (\<forall>p \<in> files (step s (Post u fid jid mkdir_err)). \<not> prefix (tempDir s jid) p)) \<and>
   (\<forall>p \<in> files (rm_tempDir jid s). \<not> prefix (tempDir s jid) p) \<and>
   rm_tempDir jid (rm_tempDir jid s) = rm_tempDir jid s"
proof (intro conjI impI ballI)
  fix p
  assume "ended (step s e) jid \<and> \<not> ended s jid" and "p \<in> files (step s e)"
  then show "\<not> prefix (tempDir s jid) p" using ended_step_cleans by blast
next
  fix p
  assume a: "terminal (job_status (step s (Post u fid jid mkdir_err)) jid) \<and> \<not> terminal (job_status s jid)"
    and p: "p \<in> files (step s (Post u fid jid mkdir_err))"
  show "\<not> prefix (tempDir s jid) p"
    using a p post_cleans [of u fid jid mkdir_err s jid p] by (auto split: if_splits)
next
  fix p
  assume "p \<in> files (rm_tempDir jid s)"
  then show "\<not> prefix (tempDir s jid) p" by (rule rm_tempDir_clears)
next
  show "rm_tempDir jid (rm_tempDir jid s) = rm_tempDir jid s" by (rule rm_tempDir_idem)
qed

section \<open>A client that goes away during the transfer\<close>

lemma run_append: "run s (es @ es') = run (run s es) es'"
  by (induction es arbitrary: s) auto

lemma tempDir_same:
  assumes "prefix (tempDir s k) p" and "prefix (tempDir s jid) p"
  shows "k = jid"
proof -
  from assms(1) obtain x where x: "p = tempDir s k @ x" by (auto simp add: prefix_def)
  from assms(2) obtain y where y: "p = tempDir s jid @ y" by (auto simp add: prefix_def)
  from x y have "tempDir s k @ x = tempDir s jid @ y" by simp
  moreover have "length (tempDir s k) = length (tempDir s jid)" by (simp add: tempDir_def)
  ultimately have "tempDir s k = tempDir s jid" by (simp add: append_eq_append_conv)
  then show ?thesis by (simp add: tempDir_def)
qed

lemma rm_other_keeps:
  assumes "k \<noteq> jid" and "p \<in> files x" and "prefix (tempDir s jid) p" and "dirname x = dirname s"
  shows "p \<in> files (rm_tempDir k x)"
proof -
  have "\<not> prefix (tempDir x k) p"
  proof
    assume "prefix (tempDir x k) p"
    then have "prefix (tempDir s k) p" using assms(4) by (simp add: tempDir_def)
    from tempDir_same [OF this assms(3)] assms(1) show False by simp
  qed
  then show ?thesis using assms(2) by (simp add: rm_tempDir_def fs_rm_recursive_def)
qed

lemma stalled_deliver:
  assumes "requests s jid = Some r" and "phase r = Stalled"
    and "p \<in> files s" and "prefix (tempDir s jid) p"
    and "ph \<noteq> Stalled"
    and "\<And>r' x. req_jobId r' \<noteq> jid \<Longrightarrow> requests s (req_jobId r') = Some r' \<Longrightarrow>
           requests (snd (handler (r', s))) = requests s \<and>
           dirname (snd (handler (r', s))) = dirname s \<and>
           req_jobId (fst (handler (r', s))) = req_jobId r' \<and>
           p \<in> files (snd (handler (r', s)))"
  shows "requests (deliver k ph handler s) jid = Some r \<and> p \<in> files (deliver k ph handler s) \<and>
         dirname (deliver k ph handler s) = dirname s"
proof (cases "requests s k")
  case None
  then show ?thesis using assms(1,3) by (simp add: deliver_def)
next
  case (Some r')
  show ?thesis
  proof (cases "phase r' = ph \<and> req_jobId r' = k")
    case False
    then show ?thesis using Some assms(1,3) by (auto simp add: deliver_def)
  next
    case True
    then have "k \<noteq> jid" using Some assms(1,2,5) by auto
    then have ne: "req_jobId r' \<noteq> jid" using True by simp
    have rq: "requests s (req_jobId r') = Some r'" using True Some by simp
    from assms(6) [OF ne rq] True Some assms(1) ne
    show ?thesis by (simp add: deliver_def store_alt)
  qed
qed

lemma on_close_keeps:
  assumes "req_jobId r' \<noteq> jid" and "p \<in> files s" and "prefix (tempDir s jid) p"
  shows "p \<in> files (snd (on_close code stat_ok (r', s)))"
proof -
  have "p \<in> files (rm_tempDir (req_jobId r') (set_and_broadcast (req_jobId r') upd s))" for upd
    by (rule rm_other_keeps [where s = s and jid = jid]) (use assms in simp_all)
  then show ?thesis using assms(2) by (simp add: on_close_def Let_def)
qed

lemma on_stream_end_keeps:
  assumes "req_jobId r' \<noteq> jid" and "p \<in> files s" and "prefix (tempDir s jid) p"
  shows "p \<in> files (snd (on_stream_end (r', s)))"
proof -
  have "p \<in> files (rm_tempDir (req_jobId r') (set_and_broadcast (req_jobId r') upd s))" for upd
    by (rule rm_other_keeps [where s = s and jid = jid]) (use assms in simp_all)
  then show ?thesis by (simp add: on_stream_end_def Let_def)
qed

lemma on_stream_error_keeps:
  assumes "req_jobId r' \<noteq> jid" and "p \<in> files s" and "prefix (tempDir s jid) p"
  shows "p \<in> files (snd (on_stream_error (r', s)))"
proof -
  have "p \<in> files (rm_tempDir (req_jobId r') s)"
    by (rule rm_other_keeps [where s = s and jid = jid]) (use assms in simp_all)
  then show ?thesis by (simp add: on_stream_error_def)
qed

lemma post_keeps:
  assumes "uuid \<noteq> jid" and "p \<in> files s" and "prefix (tempDir s jid) p"
  shows "p \<in> files (snd (post_download u fid uuid mkdir_err s)) \<and>
         dirname (snd (post_download u fid uuid mkdir_err s)) = dirname s \<and>
         requests (snd (post_download u fid uuid mkdir_err s)) jid = requests s jid"
proof (cases "truthy u")
  case False
  then show ?thesis using assms(2) by (simp add: post_download_def)
next
  case True
  show ?thesis
  proof (cases mkdir_err)
    case None
    then show ?thesis using True assms(1,2)
      by (simp add: post_download_def Let_def mkdir_tempDir_def)
  next
    case (Some msg)
    have "p \<in> files (rm_tempDir uuid (set_and_broadcast uuid upd x))"
      if "files x = files s" and "dirname x = dirname s" for upd x
      by (rule rm_other_keeps [where s = s and jid = jid]) (use assms that in simp_all)
    then show ?thesis using Some True by (simp add: post_download_def Let_def)
  qed
qed

lemma stalled_step:
  assumes "requests s jid = Some r" and "phase r = Stalled"
    and "p \<in> files s" and "prefix (tempDir s jid) p"
  shows "requests (step s e) jid = Some r \<and> p \<in> files (step s e) \<and> dirname (step s e) = dirname s"
proof (cases e)
  case (Post u fid uuid mkdir_err)
  show ?thesis
  proof (cases "activeJobs s uuid = None \<and> requests s uuid = None")
    case False
    then show ?thesis using Post assms by auto
  next
    case True
    then have ne: "uuid \<noteq> jid" using assms(1) by auto
    from post_keeps [OF ne assms(3,4)] show ?thesis using Post True assms(1) by simp
  qed
next
  case (Stdout k out)
  show ?thesis unfolding Stdout step.simps
    by (rule stalled_deliver [OF assms]) (simp_all add: on_stdout_frame assms(3))
next
  case (Close k code stat_ok)
  show ?thesis unfolding Close step.simps
    by (rule stalled_deliver [OF assms])
       (simp_all add: on_close_frame on_close_keeps [OF _ assms(3,4)])
next
  case (Stream_end k)
  show ?thesis unfolding Stream_end step.simps
    by (rule stalled_deliver [OF assms])
       (simp_all add: on_stream_end_frame on_stream_end_keeps [OF _ assms(3,4)])
next
  case (Stream_error k)
  show ?thesis unfolding Stream_error step.simps
    by (rule stalled_deliver [OF assms])
       (simp_all add: on_stream_error_frame on_stream_error_keeps [OF _ assms(3,4)])
next
  case (Client_lost k)
  show ?thesis unfolding Client_lost step.simps
    by (rule stalled_deliver [OF assms]) (simp_all add: on_client_lost_frame assms(3))
next
  case (Clock t)
  then show ?thesis using assms by (simp add: advance_clock_def fire_timers_def)
next
  case Ws_connect
  then show ?thesis using assms by (simp add: on_connection_def)
next
  case (Ws_message i message)
  then show ?thesis using assms by simp
next
  case (Ws_close i)
  then show ?thesis using assms by simp
qed

lemma stalled_run:
  assumes "requests s jid = Some r" and "phase r = Stalled"
    and "p \<in> files s" and "prefix (tempDir s jid) p"
  shows "p \<in> files (run s es)"
  using assms
proof (induction es arbitrary: s)
  case Nil
  then show ?case by simp
next
  case (Cons e es)
  from stalled_step [OF Cons.prems, of e]
  have 1: "requests (step s e) jid = Some r" and 2: "p \<in> files (step s e)"
    and 3: "dirname (step s e) = dirname s" by simp_all
  have 4: "prefix (tempDir (step s e) jid) p" using Cons.prems(4) 3 by (simp add: tempDir_def)
  from Cons.IH [OF 1 Cons.prems(2) 2 4] show ?case by simp
qed

text \<open>
  C9. The code does not do what the claim says on one failure path: when the client
  goes away while the file of a streaming job is sent to it, no listener of the handler
  runs, and whatever events follow, the temporary directory of the job stays on disk;
  the job is left with the status streaming.
\<close>

theorem client_lost_never_cleaned:
  "job_status (run server0
      [post0, Stdout ''j1'' line_dest, Stdout ''j1'' line_100, Close ''j1'' (Some 0) True,
       Client_lost ''j1'']) ''j1'' = Some Streaming \<and>
   tempDir server0 ''j1'' \<in> files (run server0
      ([post0, Stdout ''j1'' line_dest, Stdout ''j1'' line_100, Close ''j1'' (Some 0) True,
        Client_lost ''j1''] @ es))"
proof -
  let ?evs = "[post0, Stdout ''j1'' line_dest, Stdout ''j1'' line_100, Close ''j1'' (Some 0) True,
       Client_lost ''j1'']"
  let ?r = "\<lparr>req_jobId = ''j1'', res = File_stream ''/app/temp/j1/Video.mp4'',
             downloadedFile = Some ''/app/temp/j1/Video.mp4'', phase = Stalled\<rparr>"
  have st: "job_status (run server0 ?evs) ''j1'' = Some Streaming"
    by (simp add: job_status_def post0_def server0_def handler_defs
          match_line_100 match_line_dest parse_vals trim_path)
  have rq: "requests (run server0 ?evs) ''j1'' = Some ?r"
    by (simp add: post0_def server0_def handler_defs
          match_line_100 match_line_dest parse_vals trim_path)
  have ph: "phase ?r = Stalled" by simp
  have fl: "tempDir server0 ''j1'' \<in> files (run server0 ?evs)"
    by (simp add: post0_def server0_def handler_defs tempDir_def
          match_line_100 match_line_dest parse_vals trim_path)
  have dn: "tempDir (run server0 ?evs) ''j1'' = tempDir server0 ''j1''"
    by (simp add: post0_def server0_def handler_defs tempDir_def
          match_line_100 match_line_dest parse_vals trim_path)
  have pf: "prefix (tempDir (run server0 ?evs) ''j1'') (tempDir server0 ''j1'')"
    unfolding dn by simp
  from stalled_run [OF rq ph fl pf, of es]
  have "tempDir server0 ''j1'' \<in> files (run server0 (?evs @ es))"
    by (simp only: run_append)
  with st show ?thesis by (rule conjI)
qed

end
